theory Spec2Isabelle
  imports Main "HOL-Library.Word"
begin

section \<open>The expression layer of \<^verbatim>\<open>klee/Expr.h\<close>\<close>

text \<open>
  A shallow embedding of the classes declared in \<^verbatim>\<open>include/klee/Expr.h\<close>.
  An \<^verbatim>\<open>unsigned\<close> is a 32-bit word, a \<^verbatim>\<open>uint64_t\<close> a 64-bit word. A
  \<^verbatim>\<open>klee::ref<Expr>\<close> that may be null is an \<open>Expr option\<close>, with \<open>None\<close> the null
  reference. A failing \<^verbatim>\<open>assert\<close> is the value \<open>Inl (AssertionFailed msg)\<close>: the
  model describes the program with its assertions compiled in.
\<close>

subsection \<open>Widths and kinds\<close>

type_synonym Width = "32 word"

definition InvalidWidth :: Width where "InvalidWidth = 0"
definition Bool :: Width where "Bool = 1"
definition Int8 :: Width where "Int8 = 8"
definition Int16 :: Width where "Int16 = 16"
definition Int32 :: Width where "Int32 = 32"
definition Int64 :: Width where "Int64 = 64"
definition Fl80 :: Width where "Fl80 = 80"

definition MAGIC_HASH_CONSTANT :: "32 word" where "MAGIC_HASH_CONSTANT = 39"

text \<open>
  The enumeration \<^verbatim>\<open>Expr::Kind\<close>. The kinds that the class macros
  \<^verbatim>\<open>CAST_EXPR_CLASS\<close>, \<^verbatim>\<open>ARITHMETIC_EXPR_CLASS\<close> and \<^verbatim>\<open>COMPARISON_EXPR_CLASS\<close>
  range over are grouped; \<open>kindVal\<close> gives every enumerator the integer the C++
  enumeration gives it (\<^verbatim>\<open>Read = NotOptimized + 2\<close>, and \<^verbatim>\<open>Not\<close> sits between
  \<^verbatim>\<open>SRem\<close> and \<^verbatim>\<open>And\<close>).
\<close>

datatype CastKind = ZExt | SExt

datatype ArithKind =
  Add | Sub | Mul | UDiv | SDiv | URem | SRem | And | Or | Xor | Shl | LShr | AShr

datatype CmpKind = Eq | Ne | Ult | Ule | Ugt | Uge | Slt | Sle | Sgt | Sge

datatype Kind =
    InvalidKind
  | Constant
  | NotOptimized
  | Read
  | Select
  | Concat
  | Extract
  | Cast CastKind
  | Arith ArithKind
  | Not
  | Cmp CmpKind

fun castVal :: "CastKind \<Rightarrow> int" where
  "castVal ZExt = 7"
| "castVal SExt = 8"

fun arithVal :: "ArithKind \<Rightarrow> int" where
  "arithVal Add = 9"
| "arithVal Sub = 10"
| "arithVal Mul = 11"
| "arithVal UDiv = 12"
| "arithVal SDiv = 13"
| "arithVal URem = 14"
| "arithVal SRem = 15"
| "arithVal And = 17"
| "arithVal Or = 18"
| "arithVal Xor = 19"
| "arithVal Shl = 20"
| "arithVal LShr = 21"
| "arithVal AShr = 22"

fun cmpVal :: "CmpKind \<Rightarrow> int" where
  "cmpVal Eq = 23"
| "cmpVal Ne = 24"
| "cmpVal Ult = 25"
| "cmpVal Ule = 26"
| "cmpVal Ugt = 27"
| "cmpVal Uge = 28"
| "cmpVal Slt = 29"
| "cmpVal Sle = 30"
| "cmpVal Sgt = 31"
| "cmpVal Sge = 32"

fun kindVal :: "Kind \<Rightarrow> int" where
  "kindVal InvalidKind = -1"
| "kindVal Constant = 0"
| "kindVal NotOptimized = 1"
| "kindVal Read = 3"
| "kindVal Select = 4"
| "kindVal Concat = 5"
| "kindVal Extract = 6"
| "kindVal (Cast c) = castVal c"
| "kindVal (Arith a) = arithVal a"
| "kindVal Not = 16"
| "kindVal (Cmp c) = cmpVal c"

definition LastKind :: Kind where "LastKind = Cmp Sge"
definition CastKindFirst :: Kind where "CastKindFirst = Cast ZExt"
definition CastKindLast :: Kind where "CastKindLast = Cast SExt"
definition BinaryKindFirst :: Kind where "BinaryKindFirst = Arith Add"
definition BinaryKindLast :: Kind where "BinaryKindLast = Cmp Sge"
definition CmpKindFirst :: Kind where "CmpKindFirst = Cmp Eq"
definition CmpKindLast :: Kind where "CmpKindLast = Cmp Sge"

subsection \<open>Constants, arrays, update lists and expression nodes\<close>

text \<open>
  \<^verbatim>\<open>llvm::APInt\<close>: a bit width and the bit pattern read as an unsigned number of
  arbitrary precision. The constructor \<^verbatim>\<open>APInt(numBits, val)\<close> keeps the low
  \<^verbatim>\<open>numBits\<close> bits of a 64-bit \<^verbatim>\<open>val\<close>.
\<close>

record APInt =
  BitWidth :: "32 word"
  VAL :: nat

definition mkAPInt :: "Width \<Rightarrow> 64 word \<Rightarrow> APInt" where
  "mkAPInt w v = \<lparr>BitWidth = w, VAL = unat v mod 2 ^ unat w\<rparr>"

text \<open>
  The nodes. \<^verbatim>\<open>UpdateNode\<close> objects are immutable after construction and reached
  through \<^verbatim>\<open>const UpdateNode *\<close> only, so a pointer to one is modelled by the node it
  points to (\<open>NullNode\<close> is the null pointer); the fields of \<open>UpdateNode\<close> are
  \<^verbatim>\<open>next\<close>, \<^verbatim>\<open>index\<close> and \<^verbatim>\<open>value\<close>, and the cached \<^verbatim>\<open>size\<close>, the length of
  the chain, is the function \<open>chainSize\<close> of the node. The \<^verbatim>\<open>root\<close> of an
  \<^verbatim>\<open>UpdateList\<close> is a \<^verbatim>\<open>const Array *\<close>, kept as an address. The classes
  generated by one macro are one constructor with the kind as its first argument.
  The cached \<^verbatim>\<open>hashValue\<close> is written once by \<^verbatim>\<open>alloc\<close> and is a function of the
  node; the reference count and the GPU annotations \<^verbatim>\<open>ctype\<close> and \<^verbatim>\<open>accum\<close> are
  no part of a node's structure and are left out.
\<close>

datatype Expr =
    ConstantExpr APInt
  | NotOptimizedExpr Expr
  | ReadExpr UpdateList Expr
  | SelectExpr Expr Expr Expr
  | ConcatExpr Width Expr Expr
  | ExtractExpr Expr "32 word" Width
  | NotExpr Expr
  | CastExpr CastKind Expr Width
  | ArithExpr ArithKind Expr Expr
  | CmpExpr CmpKind Expr Expr
and UpdateList =
    UpdateList nat UpdateNodePtr
and UpdateNodePtr =
    NullNode
  | UpdateNode UpdateNodePtr Expr Expr

fun chainSize :: "UpdateNodePtr \<Rightarrow> 32 word" where
  "chainSize NullNode = 0"
| "chainSize (UpdateNode nxt idx val) = 1 + chainSize nxt"

datatype fault = AssertionFailed string

subsection \<open>Structural accessors\<close>

fun getKind :: "Expr \<Rightarrow> Kind" where
  "getKind (ConstantExpr v) = Constant"
| "getKind (NotOptimizedExpr src) = NotOptimized"
| "getKind (ReadExpr updates index) = Read"
| "getKind (SelectExpr c t f) = Select"
| "getKind (ConcatExpr w l r) = Concat"
| "getKind (ExtractExpr e off w) = Extract"
| "getKind (NotExpr e) = Not"
| "getKind (CastExpr k src w) = Cast k"
| "getKind (ArithExpr k l r) = Arith k"
| "getKind (CmpExpr k l r) = Cmp k"

fun getWidth :: "Expr \<Rightarrow> Width" where
  "getWidth (ConstantExpr v) = BitWidth v"
| "getWidth (NotOptimizedExpr src) = getWidth src"
| "getWidth (ReadExpr updates index) = Int8"
| "getWidth (SelectExpr c t f) = getWidth t"
| "getWidth (ConcatExpr w l r) = w"
| "getWidth (ExtractExpr e off w) = w"
| "getWidth (NotExpr e) = getWidth e"
| "getWidth (CastExpr k src w) = w"
| "getWidth (ArithExpr k l r) = getWidth l"
| "getWidth (CmpExpr k l r) = Bool"

fun getNumKids :: "Expr \<Rightarrow> 32 word" where
  "getNumKids (ConstantExpr v) = 0"
| "getNumKids (NotOptimizedExpr src) = 1"
| "getNumKids (ReadExpr updates index) = 1"
| "getNumKids (SelectExpr c t f) = 3"
| "getNumKids (ConcatExpr w l r) = 2"
| "getNumKids (ExtractExpr e off w) = 1"
| "getNumKids (NotExpr e) = 1"
| "getNumKids (CastExpr k src w) = 1"
| "getNumKids (ArithExpr k l r) = 2"
| "getNumKids (CmpExpr k l r) = 2"

text \<open>
  \<^verbatim>\<open>getKid(unsigned i)\<close>, class by class. \<^verbatim>\<open>NotOptimizedExpr\<close>, \<^verbatim>\<open>ExtractExpr\<close> and
  \<^verbatim>\<open>NotExpr\<close> return their operand whatever \<^verbatim>\<open>i\<close> is; the other classes test
  \<^verbatim>\<open>i\<close> and return the null reference otherwise.
\<close>

fun getKid :: "Expr \<Rightarrow> 32 word \<Rightarrow> Expr option" where
  "getKid (ConstantExpr v) i = None"
| "getKid (NotOptimizedExpr src) i = Some src"
| "getKid (ReadExpr updates index) i = (if i = 0 then Some index else None)"
| "getKid (SelectExpr c t f) i =
     (if i = 0 then Some c else if i = 1 then Some t else if i = 2 then Some f else None)"
| "getKid (ConcatExpr w l r) i = (if i = 0 then Some l else if i = 1 then Some r else None)"
| "getKid (ExtractExpr e off w) i = Some e"
| "getKid (NotExpr e) i = Some e"
| "getKid (CastExpr k src w) i = (if i = 0 then Some src else None)"
| "getKid (ArithExpr k l r) i = (if i = 0 then Some l else if i = 1 then Some r else None)"
| "getKid (CmpExpr k l r) i = (if i = 0 then Some l else if i = 1 then Some r else None)"

text \<open>The static \<^verbatim>\<open>needsResultType()\<close>: \<^verbatim>\<open>true\<close> in \<^verbatim>\<open>CastExpr\<close>, \<^verbatim>\<open>false\<close> in \<^verbatim>\<open>Expr\<close>.\<close>

fun needsResultType :: "Expr \<Rightarrow> bool" where
  "needsResultType (CastExpr k src w) = True"
| "needsResultType e = False"

text \<open>The \<^verbatim>\<open>classof\<close> tests: a kind test for a concrete class, a range test for a family.\<close>

definition classof_ConstantExpr :: "Expr \<Rightarrow> bool" where
  "classof_ConstantExpr E = (getKind E = Constant)"


definition classof_BinaryExpr :: "Expr \<Rightarrow> bool" where
  "classof_BinaryExpr E =
     (kindVal BinaryKindFirst \<le> kindVal (getKind E) \<and> kindVal (getKind E) \<le> kindVal BinaryKindLast)"

definition classof_CmpExpr :: "Expr \<Rightarrow> bool" where
  "classof_CmpExpr E =
     (kindVal CmpKindFirst \<le> kindVal (getKind E) \<and> kindVal (getKind E) \<le> kindVal CmpKindLast)"

definition classof_CastExpr :: "Expr \<Rightarrow> bool" where
  "classof_CastExpr E =
     (kindVal CastKindFirst \<le> kindVal (getKind E) \<and> kindVal (getKind E) \<le> kindVal CastKindLast)"

subsection \<open>Allocation\<close>

text \<open>
  Every \<^verbatim>\<open>alloc\<close> runs the class's constructor on its arguments, calls
  \<^verbatim>\<open>computeHash()\<close> on the new node and returns it. Only the constructor of
  \<^verbatim>\<open>ConcatExpr\<close> computes a field: \<^verbatim>\<open>width = l->getWidth() + r->getWidth()\<close>, an
  addition of two \<^verbatim>\<open>unsigned\<close>.
\<close>

definition alloc_Constant :: "APInt \<Rightarrow> Expr" where
  "alloc_Constant v = ConstantExpr v"

definition alloc_NotOptimized :: "Expr \<Rightarrow> Expr" where
  "alloc_NotOptimized src = NotOptimizedExpr src"

definition alloc_Read :: "UpdateList \<Rightarrow> Expr \<Rightarrow> Expr" where
  "alloc_Read updates index = ReadExpr updates index"

definition alloc_Select :: "Expr \<Rightarrow> Expr \<Rightarrow> Expr \<Rightarrow> Expr" where
  "alloc_Select c t f = SelectExpr c t f"

definition alloc_Concat :: "Expr \<Rightarrow> Expr \<Rightarrow> Expr" where
  "alloc_Concat l r = ConcatExpr (getWidth l + getWidth r) l r"

definition alloc_Extract :: "Expr \<Rightarrow> 32 word \<Rightarrow> Width \<Rightarrow> Expr" where
  "alloc_Extract e o' w = ExtractExpr e o' w"

definition alloc_Not :: "Expr \<Rightarrow> Expr" where
  "alloc_Not e = NotExpr e"

definition alloc_Cast :: "CastKind \<Rightarrow> Expr \<Rightarrow> Width \<Rightarrow> Expr" where
  "alloc_Cast k e w = CastExpr k e w"

definition alloc_Arith :: "ArithKind \<Rightarrow> Expr \<Rightarrow> Expr \<Rightarrow> Expr" where
  "alloc_Arith k l r = ArithExpr k l r"

definition alloc_Cmp :: "CmpKind \<Rightarrow> Expr \<Rightarrow> Expr \<Rightarrow> Expr" where
  "alloc_Cmp k l r = CmpExpr k l r"

subsection \<open>Rebuilding a node on new children\<close>

text \<open>
  \<^verbatim>\<open>rebuild(kids)\<close> calls the \<^verbatim>\<open>create\<close> of the node's class on the new children and
  the node's own non-child fields. The \<^verbatim>\<open>create\<close> functions are only declared in the
  header, so \<open>rebuild\<close> takes them as a parameter. The array argument
  \<^verbatim>\<open>kids[]\<close> is the function from an index to the element stored there.
\<close>

record creators =
  create_NotOptimized :: "Expr \<Rightarrow> fault + Expr"
  create_Read :: "UpdateList \<Rightarrow> Expr \<Rightarrow> fault + Expr"
  create_Select :: "Expr \<Rightarrow> Expr \<Rightarrow> Expr \<Rightarrow> fault + Expr"
  create_Concat :: "Expr \<Rightarrow> Expr \<Rightarrow> fault + Expr"
  create_Extract :: "Expr \<Rightarrow> 32 word \<Rightarrow> Width \<Rightarrow> fault + Expr"
  create_Not :: "Expr \<Rightarrow> fault + Expr"
  create_Cast :: "CastKind \<Rightarrow> Expr \<Rightarrow> Width \<Rightarrow> fault + Expr"
  create_Arith :: "ArithKind \<Rightarrow> Expr \<Rightarrow> Expr \<Rightarrow> fault + Expr"
  create_Cmp :: "CmpKind \<Rightarrow> Expr \<Rightarrow> Expr \<Rightarrow> fault + Expr"

fun rebuild :: "creators \<Rightarrow> Expr \<Rightarrow> (nat \<Rightarrow> Expr) \<Rightarrow> fault + Expr" where
  "rebuild cr (ConstantExpr v) kids = Inl (AssertionFailed ''rebuild() on ConstantExpr'')"
| "rebuild cr (NotOptimizedExpr src) kids = create_NotOptimized cr (kids 0)"
| "rebuild cr (ReadExpr updates index) kids = create_Read cr updates (kids 0)"
| "rebuild cr (SelectExpr c t f) kids = create_Select cr (kids 0) (kids 1) (kids 2)"
| "rebuild cr (ConcatExpr w l r) kids = create_Concat cr (kids 0) (kids 1)"
| "rebuild cr (ExtractExpr e off w) kids = create_Extract cr (kids 0) off w"
| "rebuild cr (NotExpr e) kids = create_Not cr (kids 0)"
| "rebuild cr (CastExpr k src w) kids = create_Cast cr k (kids 0) w"
| "rebuild cr (ArithExpr k l r) kids = create_Arith cr k (kids 0) (kids 1)"
| "rebuild cr (CmpExpr k l r) kids = create_Cmp cr k (kids 0) (kids 1)"

subsection \<open>Children and the reachable nodes\<close>

text \<open>
  The children of a node, in the order of their indices: what \<^verbatim>\<open>getKid(i)\<close> returns for
  \<^verbatim>\<open>i = 0, ..., getNumKids() - 1\<close> (see \<open>kids_getKid\<close> below).
\<close>

fun kids :: "Expr \<Rightarrow> Expr list" where
  "kids (ConstantExpr v) = []"
| "kids (NotOptimizedExpr src) = [src]"
| "kids (ReadExpr updates index) = [index]"
| "kids (SelectExpr c t f) = [c, t, f]"
| "kids (ConcatExpr w l r) = [l, r]"
| "kids (ExtractExpr e off w) = [e]"
| "kids (NotExpr e) = [e]"
| "kids (CastExpr k src w) = [src]"
| "kids (ArithExpr k l r) = [l, r]"
| "kids (CmpExpr k l r) = [l, r]"






subsection \<open>Sample expressions\<close>

text \<open>
  A 32-bit constant as \<^verbatim>\<open>ConstantExpr::alloc(v, Expr::Int32)\<close> builds it, and the read
  of the byte at index 0 of a symbolic array (the array object at address 0) with no
  update.
\<close>

definition const32 :: "64 word \<Rightarrow> Expr" where
  "const32 v = alloc_Constant (mkAPInt Int32 v)"

definition byte0 :: Expr where
  "byte0 = alloc_Read (UpdateList 0 NullNode) (const32 0)"

text \<open>
  A stand-in for the \<^verbatim>\<open>create\<close> functions with which \<open>rebuild\<close> can be run: each
  one allocates and does nothing else.
\<close>

definition allocOnly :: creators where
  "allocOnly =
     \<lparr>create_NotOptimized = (\<lambda>s. Inr (alloc_NotOptimized s)),
      create_Read = (\<lambda>u i. Inr (alloc_Read u i)),
      create_Select = (\<lambda>c t f. Inr (alloc_Select c t f)),
      create_Concat = (\<lambda>l r. Inr (alloc_Concat l r)),
      create_Extract = (\<lambda>e off w. Inr (alloc_Extract e off w)),
      create_Not = (\<lambda>e. Inr (alloc_Not e)),
      create_Cast = (\<lambda>k e w. Inr (alloc_Cast k e w)),
      create_Arith = (\<lambda>k l r. Inr (alloc_Arith k l r)),
      create_Cmp = (\<lambda>k l r. Inr (alloc_Cmp k l r))\<rparr>"

subsection \<open>Arrays\<close>

text \<open>
  The class \<^verbatim>\<open>Array\<close>: its name, its \<^verbatim>\<open>unsigned size\<close> and the vector of its
  constant initial values, each a \<^verbatim>\<open>ref<ConstantExpr>\<close> and so given by the
  \<^verbatim>\<open>APInt\<close> the constant holds. The constructor takes the size as a \<^verbatim>\<open>uint64_t\<close>
  and stores it in the \<^verbatim>\<open>unsigned\<close> field; the range
  \<^verbatim>\<open>[constantValuesBegin, constantValuesEnd)\<close> is the list of its elements. It asserts
  that the array is symbolic or has as many constant values as its size says, and then,
  value by value, that each constant has the width \<^verbatim>\<open>getRange()\<close>.
\<close>

record Array =
  name :: string
  size_Array :: "32 word"
  constantValues :: "APInt list"

definition isSymbolicArray :: "Array \<Rightarrow> bool" where
  "isSymbolicArray a = (constantValues a = [])"

definition isConstantArray :: "Array \<Rightarrow> bool" where
  "isConstantArray a = (\<not> isSymbolicArray a)"

definition getDomain :: "Array \<Rightarrow> Width" where
  "getDomain a = Int32"

definition getRange :: "Array \<Rightarrow> Width" where
  "getRange a = Int8"

definition Array_ctor :: "string \<Rightarrow> 64 word \<Rightarrow> APInt list \<Rightarrow> fault + Array" where
  "Array_ctor name0 size0 vals =
     (let a = \<lparr>name = name0, size_Array = ucast size0, constantValues = vals\<rparr> in
      if \<not> (isSymbolicArray a \<or> length (constantValues a) = unat (size_Array a))
      then Inl (AssertionFailed ''Invalid size for constant array!'')
      else if \<not> list_all (\<lambda>v. getWidth (ConstantExpr v) = getRange a) vals
      then Inl (AssertionFailed ''Invalid initial constant value!'')
      else Inr a)"

subsection \<open>The value of a constant as a 64-bit integer\<close>

text \<open>
  \<^verbatim>\<open>llvm::APInt::getZExtValue()\<close> belongs to the LLVM library, which is outside the
  repository; by its documentation it returns the value as a
  \<^verbatim>\<open>uint64_t\<close>: the value itself when the width is at most 64 bits, and otherwise the
  low word after \<^verbatim>\<open>assert(getActiveBits() <= 64 && "Too many bits for uint64_t")\<close>.
  An \<^verbatim>\<open>APInt\<close> keeps its value below \<open>2 ^ BitWidth\<close> (\<open>wfAPInt\<close>).
\<close>

definition wfAPInt :: "APInt \<Rightarrow> bool" where
  "wfAPInt v = (VAL v < 2 ^ unat (BitWidth v))"

definition APInt_getZExtValue :: "APInt \<Rightarrow> fault + 64 word" where
  "APInt_getZExtValue v =
     (if BitWidth v \<le> 64 then Inr (word_of_nat (VAL v))
      else if \<not> VAL v < 2 ^ 64 then Inl (AssertionFailed ''Too many bits for uint64_t'')
      else Inr (word_of_nat (VAL v)))"

text \<open>\<^verbatim>\<open>ConstantExpr::getZExtValue(unsigned bits = 64)\<close>.\<close>

fun getZExtValue :: "Expr \<Rightarrow> 32 word \<Rightarrow> fault + 64 word" where
  "getZExtValue (ConstantExpr v) bits =
     (if \<not> getWidth (ConstantExpr v) \<le> bits
      then Inl (AssertionFailed ''Value may be out of range!'')
      else APInt_getZExtValue v)"

definition fl80_two_to_64 :: Expr where
  "fl80_two_to_64 = alloc_Constant \<lparr>BitWidth = Fl80, VAL = 2 ^ 64\<rparr>"

subsection \<open>Update nodes in memory and \<^verbatim>\<open>UpdateList::extend\<close>\<close>

text \<open>
  For the effect of \<^verbatim>\<open>extend\<close> on the nodes that exist already, the \<^verbatim>\<open>UpdateNode\<close>
  objects are kept in a store: the object at address \<open>a\<close> is the \<open>a\<close>-th element, and
  \<^verbatim>\<open>new UpdateNode(...)\<close> puts its object at the next free address. A
  \<^verbatim>\<open>const UpdateNode *\<close> is an address or null (\<open>None\<close>). The fields are those of the
  class: \<^verbatim>\<open>next\<close>, \<^verbatim>\<open>index\<close>, \<^verbatim>\<open>value\<close>, \<^verbatim>\<open>size\<close>. An \<^verbatim>\<open>UpdateList\<close> object holds
  \<^verbatim>\<open>root\<close> and \<^verbatim>\<open>head\<close>; it is a value, copied by its copy constructor.
\<close>

record UpdateNode_obj =
  next_fld :: "nat option"
  index_fld :: Expr
  value_fld :: Expr
  size_fld :: "32 word"

type_synonym store = "UpdateNode_obj list"

record UpdateList_obj =
  root :: nat
  head :: "nat option"

text \<open>\<^verbatim>\<open>UpdateList::getSize()\<close>: \<^verbatim>\<open>head ? head->getSize() : 0\<close>.\<close>

definition getSize :: "store \<Rightarrow> UpdateList_obj \<Rightarrow> 32 word" where
  "getSize st L = (case head L of None \<Rightarrow> 0 | Some a \<Rightarrow> size_fld (st ! a))"

text \<open>
  Modelled from the spec: the constructor \<^verbatim>\<open>UpdateNode(next, index, value)\<close> and
  \<^verbatim>\<open>UpdateList::extend(index, value)\<close> are declared in the header and defined in a
  file that is not among the sources. The spec: an entry holds its index, its value and
  the link to the previous entry, with \<open>length(entry) = length(prev) + 1\<close>;
  \<^verbatim>\<open>extend\<close> ``publishes a new \<^verbatim>\<open>UpdateList\<close> head node pointing at the previous
  head --- it never mutates the previous head''. \<^verbatim>\<open>extend\<close> is a \<^verbatim>\<open>void\<close> method that
  changes its \<^verbatim>\<open>UpdateList\<close>: the model returns the new store and the changed list.
\<close>

definition new_UpdateNode :: "store \<Rightarrow> nat option \<Rightarrow> Expr \<Rightarrow> Expr \<Rightarrow> store \<times> nat" where
  "new_UpdateNode st nxt i v =
     (st @ [\<lparr>next_fld = nxt, index_fld = i, value_fld = v,
              size_fld = 1 + (case nxt of None \<Rightarrow> 0 | Some a \<Rightarrow> size_fld (st ! a))\<rparr>],
      length st)"

definition extend :: "store \<Rightarrow> UpdateList_obj \<Rightarrow> Expr \<Rightarrow> Expr \<Rightarrow> store \<times> UpdateList_obj" where
  "extend st L i v =
     (case new_UpdateNode st (head L) i v of (st', a) \<Rightarrow> (st', L\<lparr>head := Some a\<rparr>))"

text \<open>
  A node is allocated after the node its \<^verbatim>\<open>next\<close> points to: in a store built by
  \<^verbatim>\<open>new\<close> every \<^verbatim>\<open>next\<close> is null or a smaller address, and the pointers held are
  addresses of the store.
\<close>

definition validPtr :: "store \<Rightarrow> nat option \<Rightarrow> bool" where
  "validPtr st p = (case p of None \<Rightarrow> True | Some a \<Rightarrow> a < length st)"

definition olderNext :: "store \<Rightarrow> nat \<Rightarrow> bool" where
  "olderNext st a = (case next_fld (st ! a) of None \<Rightarrow> True | Some b \<Rightarrow> b < a)"

definition wfStore :: "store \<Rightarrow> bool" where
  "wfStore st = list_all (olderNext st) [0..<length st]"

text \<open>
  The immutable chain that a node pointer stands for in a store: the value by which a
  \<^verbatim>\<open>ReadExpr\<close> node holds its update list.
\<close>

function nodeAt :: "store \<Rightarrow> nat \<Rightarrow> UpdateNodePtr" where
  "nodeAt st a =
     (if a < length st
      then UpdateNode
             (case next_fld (st ! a) of
                None \<Rightarrow> NullNode
              | Some b \<Rightarrow> if b < a then nodeAt st b else NullNode)
             (index_fld (st ! a)) (value_fld (st ! a))
      else NullNode)"
  by pat_completeness auto
termination
  by (relation "measure snd") auto

declare nodeAt.simps [simp del]

definition chainOf :: "store \<Rightarrow> nat option \<Rightarrow> UpdateNodePtr" where
  "chainOf st p = (case p of None \<Rightarrow> NullNode | Some a \<Rightarrow> nodeAt st a)"

text \<open>
  Modelled from the spec: what reading an index against an update list yields (the
  code that resolves a read, \<^verbatim>\<open>ReadExpr::create\<close>, is only declared). The update
  list is the history of writes, its head the most recent one: the read yields the value
  of the most recent write at that index, and \<open>None\<close> when the history has no write at
  it (the read then falls through to the contents of the root array).
\<close>

fun readChain :: "UpdateNodePtr \<Rightarrow> Expr \<Rightarrow> Expr option" where
  "readChain NullNode i = None"
| "readChain (UpdateNode nxt idx val) i = (if idx = i then Some val else readChain nxt i)"

definition readAt :: "store \<Rightarrow> UpdateList_obj \<Rightarrow> Expr \<Rightarrow> Expr option" where
  "readAt st L i = readChain (chainOf st (head L)) i"

text \<open>
  Sample update lists: the list of a symbolic array with no write, and the three lists of
  the persistence scenario built one after the other in one store: \<open>L0\<close> with the write
  of 5 at index 0, then \<open>L1 = extend(L0, 0, 7)\<close> and \<open>L2 = extend(L0, 1, 9)\<close>.
\<close>

definition noUpdates :: UpdateList_obj where
  "noUpdates = \<lparr>root = 0, head = None\<rparr>"

definition sampleL0 :: "store \<times> UpdateList_obj" where
  "sampleL0 = extend [] noUpdates (const32 0) (const32 5)"

definition sampleL1 :: "store \<times> UpdateList_obj" where
  "sampleL1 = extend (fst sampleL0) (snd sampleL0) (const32 0) (const32 7)"

definition sampleL2 :: "store \<times> UpdateList_obj" where
  "sampleL2 = extend (fst sampleL1) (snd sampleL0) (const32 1) (const32 9)"

subsection \<open>Structural comparison and hashing\<close>

text \<open>
  The two idioms of the comparison code: \<^verbatim>\<open>if (x != y) return x < y ? -1 : 1;\<close>
  followed by \<^verbatim>\<open>return 0\<close> is \<open>cmp3 x y\<close>, and
  \<^verbatim>\<open>if (int res = ...) return res;\<close> followed by the rest is \<open>thenCmp res rest\<close>.
\<close>

definition cmp3 :: "'a::linorder \<Rightarrow> 'a \<Rightarrow> int" where
  "cmp3 x y = (if x \<noteq> y then (if x < y then - 1 else 1) else 0)"

definition thenCmp :: "int \<Rightarrow> int \<Rightarrow> int" where
  "thenCmp res rest = (if res \<noteq> 0 then res else rest)"

text \<open>
  Modelled from the spec: \<^verbatim>\<open>Expr::compare\<close>, \<^verbatim>\<open>ReadExpr::compareContents\<close>,
  \<^verbatim>\<open>UpdateList::compare\<close> and \<^verbatim>\<open>UpdateNode::compare\<close> are declared in the header and
  defined in a file that is not among the sources. The spec: \<^verbatim>\<open>compare\<close> orders ``first
  by kind, then by width, then by a kind-specific contents comparison, then
  lexicographically over children by recursive \<^verbatim>\<open>compare\<close>''; two update lists are
  compared by a walk of ``both chains from their heads comparing (index, value) pairs
  pairwise, falling back to root-array identity''. Where the walk reaches the end of one
  chain only, the model puts the shorter chain first; the root arrays are compared by
  their addresses. The set of node pairs already found equal, which the comparison
  carries along to skip them, changes no result and is left out.

  \<^verbatim>\<open>compareContents\<close> is as the header defines it in \<^verbatim>\<open>ConstantExpr\<close> (the width,
  then the value), \<^verbatim>\<open>ExtractExpr\<close> (the offset, then the width), \<^verbatim>\<open>NotExpr\<close> (the
  operands, by the comparison operators of \<^verbatim>\<open>ref<Expr>\<close>) and \<^verbatim>\<open>CastExpr\<close> (the
  width), and \<^verbatim>\<open>0\<close> in \<^verbatim>\<open>Expr\<close>. Each casts its argument to its own class:
  \<^verbatim>\<open>compare\<close> calls it on two nodes of one kind, and on a node of another class the
  model returns 0.
\<close>

fun compare :: "Expr \<Rightarrow> Expr \<Rightarrow> int"
  and compareContents :: "Expr \<Rightarrow> Expr \<Rightarrow> int"
  and compareKids :: "Expr \<Rightarrow> Expr \<Rightarrow> int"
  and compareUL :: "UpdateList \<Rightarrow> UpdateList \<Rightarrow> int"
  and compareNodes :: "UpdateNodePtr \<Rightarrow> UpdateNodePtr \<Rightarrow> int"
where
  "compare a b =
     thenCmp (cmp3 (kindVal (getKind a)) (kindVal (getKind b)))
       (thenCmp (cmp3 (getWidth a) (getWidth b))
          (thenCmp (compareContents a b) (compareKids a b)))"
| "compareContents (ConstantExpr v) b =
     (case b of
        ConstantExpr v' \<Rightarrow> thenCmp (cmp3 (BitWidth v) (BitWidth v')) (cmp3 (VAL v) (VAL v'))
      | _ \<Rightarrow> 0)"
| "compareContents (NotOptimizedExpr s) b = 0"
| "compareContents (ReadExpr u i) b =
     (case b of ReadExpr u' i' \<Rightarrow> compareUL u u' | _ \<Rightarrow> 0)"
| "compareContents (SelectExpr c t f) b = 0"
| "compareContents (ConcatExpr w l r) b = 0"
| "compareContents (ExtractExpr e off w) b =
     (case b of ExtractExpr e' off' w' \<Rightarrow> thenCmp (cmp3 off off') (cmp3 w w') | _ \<Rightarrow> 0)"
| "compareContents (NotExpr e) b =
     (case b of
        NotExpr e' \<Rightarrow> (if compare e e' \<noteq> 0 then (if compare e e' < 0 then - 1 else 1) else 0)
      | _ \<Rightarrow> 0)"
| "compareContents (CastExpr k s w) b =
     (case b of CastExpr k' s' w' \<Rightarrow> cmp3 w w' | _ \<Rightarrow> 0)"
| "compareContents (ArithExpr k l r) b = 0"
| "compareContents (CmpExpr k l r) b = 0"
| "compareKids (ConstantExpr v) b = 0"
| "compareKids (NotOptimizedExpr s) b =
     (case b of NotOptimizedExpr s' \<Rightarrow> compare s s' | _ \<Rightarrow> 0)"
| "compareKids (ReadExpr u i) b =
     (case b of ReadExpr u' i' \<Rightarrow> compare i i' | _ \<Rightarrow> 0)"
| "compareKids (SelectExpr c t f) b =
     (case b of
        SelectExpr c' t' f' \<Rightarrow> thenCmp (compare c c') (thenCmp (compare t t') (compare f f'))
      | _ \<Rightarrow> 0)"
| "compareKids (ConcatExpr w l r) b =
     (case b of ConcatExpr w' l' r' \<Rightarrow> thenCmp (compare l l') (compare r r') | _ \<Rightarrow> 0)"
| "compareKids (ExtractExpr e off w) b =
     (case b of ExtractExpr e' off' w' \<Rightarrow> compare e e' | _ \<Rightarrow> 0)"
| "compareKids (NotExpr e) b =
     (case b of NotExpr e' \<Rightarrow> compare e e' | _ \<Rightarrow> 0)"
| "compareKids (CastExpr k s w) b =
     (case b of CastExpr k' s' w' \<Rightarrow> compare s s' | _ \<Rightarrow> 0)"
| "compareKids (ArithExpr k l r) b =
     (case b of ArithExpr k' l' r' \<Rightarrow> thenCmp (compare l l') (compare r r') | _ \<Rightarrow> 0)"
| "compareKids (CmpExpr k l r) b =
     (case b of CmpExpr k' l' r' \<Rightarrow> thenCmp (compare l l') (compare r r') | _ \<Rightarrow> 0)"
| "compareUL (UpdateList rt h) ub =
     (case ub of UpdateList rt' h' \<Rightarrow> thenCmp (compareNodes h h') (cmp3 rt rt'))"
| "compareNodes NullNode nb = (case nb of NullNode \<Rightarrow> 0 | UpdateNode n' i' v' \<Rightarrow> - 1)"
| "compareNodes (UpdateNode n i v) nb =
     (case nb of
        NullNode \<Rightarrow> 1
      | UpdateNode n' i' v' \<Rightarrow>
          thenCmp (compare i i') (thenCmp (compare v v') (compareNodes n n')))"

declare compare.simps [simp del]

text \<open>The comparison of two lists of children, first difference first.\<close>

fun lexCompare :: "Expr list \<Rightarrow> Expr list \<Rightarrow> int" where
  "lexCompare (x # xs) (y # ys) = thenCmp (compare x y) (lexCompare xs ys)"
| "lexCompare xs ys = 0"

text \<open>
  Modelled from the spec: \<^verbatim>\<open>computeHash()\<close> is declared in the header and defined
  elsewhere. The spec: the hash ``combines kind, width, kind-specific contents, and each
  child's cached hash with a fixed odd mixing constant'', is computed once at
  construction and cached. The spec fixes what enters the hash and not the formula: the
  model folds the words in with \<^verbatim>\<open>MAGIC_HASH_CONSTANT\<close>, in 32-bit arithmetic.
\<close>

definition hashCombine :: "32 word list \<Rightarrow> 32 word" where
  "hashCombine ws = foldl (\<lambda>h x. h * MAGIC_HASH_CONSTANT + x) 0 ws"

definition kindWord :: "Expr \<Rightarrow> 32 word" where
  "kindWord e = word_of_int (kindVal (getKind e))"

fun hash :: "Expr \<Rightarrow> 32 word"
  and hashUL :: "UpdateList \<Rightarrow> 32 word"
  and hashNodes :: "UpdateNodePtr \<Rightarrow> 32 word"
where
  "hash (ConstantExpr v) =
     hashCombine [kindWord (ConstantExpr v), getWidth (ConstantExpr v), word_of_nat (VAL v)]"
| "hash (NotOptimizedExpr s) =
     hashCombine [kindWord (NotOptimizedExpr s), getWidth (NotOptimizedExpr s), hash s]"
| "hash (ReadExpr u i) =
     hashCombine [kindWord (ReadExpr u i), getWidth (ReadExpr u i), hashUL u, hash i]"
| "hash (SelectExpr c t f) =
     hashCombine [kindWord (SelectExpr c t f), getWidth (SelectExpr c t f), hash c, hash t, hash f]"
| "hash (ConcatExpr w l r) =
     hashCombine [kindWord (ConcatExpr w l r), getWidth (ConcatExpr w l r), hash l, hash r]"
| "hash (ExtractExpr e off w) =
     hashCombine [kindWord (ExtractExpr e off w), getWidth (ExtractExpr e off w), off, w, hash e]"
| "hash (NotExpr e) = hashCombine [kindWord (NotExpr e), getWidth (NotExpr e), hash e]"
| "hash (CastExpr k s w) =
     hashCombine [kindWord (CastExpr k s w), getWidth (CastExpr k s w), w, hash s]"
| "hash (ArithExpr k l r) =
     hashCombine [kindWord (ArithExpr k l r), getWidth (ArithExpr k l r), hash l, hash r]"
| "hash (CmpExpr k l r) =
     hashCombine [kindWord (CmpExpr k l r), getWidth (CmpExpr k l r), hash l, hash r]"
| "hashUL (UpdateList rt h) = hashCombine [word_of_nat rt, hashNodes h]"
| "hashNodes NullNode = 0"
| "hashNodes (UpdateNode n i v) = hashCombine [hash i, hash v, hashNodes n]"

text \<open>
  Three results \<open>p = cmp x y\<close>, \<open>q = cmp y z\<close> and \<open>r = cmp x z\<close> of a comparison
  that is transitive in both directions and respects equivalence.
\<close>

definition ordTriple :: "int \<Rightarrow> int \<Rightarrow> int \<Rightarrow> bool" where
  "ordTriple p q r =
     ((p = 0 \<longrightarrow> r = q) \<and> (q = 0 \<longrightarrow> r = p) \<and> (p < 0 \<and> q < 0 \<longrightarrow> r < 0)
      \<and> (0 < p \<and> 0 < q \<longrightarrow> 0 < r))"

section \<open>Properties of the accessors and of allocation\<close>

lemma kids_getKid:
  "kids e = map (\<lambda>i. the (getKid e (of_nat i))) [0..<unat (getNumKids e)]"
  by (cases e) (simp_all add: upt_rec)

lemma getKid_checked_classes:
  assumes "getNumKids e \<le> i"
    and "getKind e \<noteq> NotOptimized" "getKind e \<noteq> Extract" "getKind e \<noteq> Not"
  shows "getKid e i = None"
  using assms by (cases e) (auto simp: word_le_def)


lemma castVal_range: "7 \<le> castVal k \<and> castVal k \<le> 8"
  by (cases k) simp_all

lemma arithVal_range: "9 \<le> arithVal k \<and> arithVal k \<le> 22 \<and> arithVal k \<noteq> 16"
  by (cases k) simp_all

lemma cmpVal_range: "23 \<le> cmpVal k \<and> cmpVal k \<le> 32"
  by (cases k) simp_all

text \<open>The range tests of \<^verbatim>\<open>CmpExpr::classof\<close> and \<^verbatim>\<open>CastExpr::classof\<close> select
  exactly the nodes of the comparison classes and of the cast classes.\<close>

lemma classof_CmpExpr_iff: "classof_CmpExpr e = (\<exists>k l r. e = CmpExpr k l r)"
proof (cases e)
  case (CastExpr k src w)
  then show ?thesis
    using castVal_range [of k] by (simp add: classof_CmpExpr_def CmpKindFirst_def CmpKindLast_def)
next
  case (ArithExpr k l r)
  then show ?thesis
    using arithVal_range [of k] by (simp add: classof_CmpExpr_def CmpKindFirst_def CmpKindLast_def)
next
  case (CmpExpr k l r)
  then show ?thesis
    using cmpVal_range [of k] by (simp add: classof_CmpExpr_def CmpKindFirst_def CmpKindLast_def)
qed (simp_all add: classof_CmpExpr_def CmpKindFirst_def CmpKindLast_def)

lemma classof_CastExpr_iff: "classof_CastExpr e = (\<exists>k src w. e = CastExpr k src w)"
proof (cases e)
  case (CastExpr k src w)
  then show ?thesis
    using castVal_range [of k] by (simp add: classof_CastExpr_def CastKindFirst_def CastKindLast_def)
next
  case (ArithExpr k l r)
  then show ?thesis
    using arithVal_range [of k] by (simp add: classof_CastExpr_def CastKindFirst_def CastKindLast_def)
next
  case (CmpExpr k l r)
  then show ?thesis
    using cmpVal_range [of k] by (simp add: classof_CastExpr_def CastKindFirst_def CastKindLast_def)
qed (simp_all add: classof_CastExpr_def CastKindFirst_def CastKindLast_def)


lemma getKind_alloc:
  "getKind (alloc_Constant v) = Constant"
  "getKind (alloc_NotOptimized s) = NotOptimized"
  "getKind (alloc_Read u i) = Read"
  "getKind (alloc_Select c t f) = Select"
  "getKind (alloc_Concat l r) = Concat"
  "getKind (alloc_Extract e off w) = Extract"
  "getKind (alloc_Not e) = Not"
  "getKind (alloc_Cast ck e w) = Cast ck"
  "getKind (alloc_Arith ak l r) = Arith ak"
  "getKind (alloc_Cmp mk l r) = Cmp mk"
  by (simp_all add: alloc_Constant_def alloc_NotOptimized_def alloc_Read_def alloc_Select_def
      alloc_Concat_def alloc_Extract_def alloc_Not_def alloc_Cast_def alloc_Arith_def
      alloc_Cmp_def)


subsection \<open>Claim C1: no node with all-constant operands\<close>




subsection \<open>Claim C2: the child at an index out of range\<close>

text \<open>
  Claim C2 says that \<^verbatim>\<open>getKid(i)\<close> returns the null reference for every index
  \<^verbatim>\<open>i\<close> outside \<^verbatim>\<open>[0, getNumKids())\<close>, for every class, \<^verbatim>\<open>ExtractExpr\<close>,
  \<^verbatim>\<open>NotExpr\<close> and \<^verbatim>\<open>NotOptimizedExpr\<close> included. The classes that test the index
  do so (\<open>getKid_checked_classes\<close>). The three named classes have one child and do not
  look at the index: at index 1, and at every other index, they return their operand.
\<close>

theorem getKid_ignores_index:
  "getNumKids (ExtractExpr e off w) = 1 \<and> getKid (ExtractExpr e off w) 1 = Some e
   \<and> getNumKids (NotExpr e) = 1 \<and> getKid (NotExpr e) 1 = Some e
   \<and> getNumKids (NotOptimizedExpr e) = 1 \<and> getKid (NotOptimizedExpr e) 1 = Some e
   \<and> getKid (ExtractExpr e off w) i = Some e
   \<and> getKid (NotExpr e) i = Some e
   \<and> getKid (NotOptimizedExpr e) i = Some e"
  by simp

subsection \<open>Claim C5: the comparison kinds outside the canonical form\<close>




subsection \<open>Claim C6: \<^verbatim>\<open>rebuild\<close> on a constant\<close>

text \<open>
  Claim C6: \<^verbatim>\<open>rebuild\<close> on a terminal node, a \<^verbatim>\<open>ConstantExpr\<close>, is fatal. Whatever
  the \<^verbatim>\<open>create\<close> functions and the array of children are, the call ends in the failed
  assertion \<^verbatim>\<open>assert(0 && "rebuild() on ConstantExpr")\<close> and returns no node.
\<close>

theorem rebuild_ConstantExpr_fatal:
  "classof_ConstantExpr e \<Longrightarrow>
     rebuild cr e ks = Inl (AssertionFailed ''rebuild() on ConstantExpr'')
     \<and> (\<forall>r. rebuild cr e ks \<noteq> Inr r)"
  by (cases e) (simp_all add: classof_ConstantExpr_def)

theorem rebuild_ConstantExpr_fatal_witness:
  "classof_ConstantExpr (const32 5)
   \<and> rebuild allocOnly (const32 5) (\<lambda>i. byte0) = Inl (AssertionFailed ''rebuild() on ConstantExpr'')"
proof -
  have c: "classof_ConstantExpr (const32 5)"
    by (simp add: classof_ConstantExpr_def const32_def getKind_alloc)
  from rebuild_ConstantExpr_fatal [OF c, of allocOnly "\<lambda>i. byte0"] c show ?thesis
    by simp
qed

subsection \<open>Claim C7: the widths of comparisons and casts\<close>

text \<open>
  Claim C7: a comparison node (a node whose kind lies in \<^verbatim>\<open>[Eq, Sge]\<close>) has width
  \<^verbatim>\<open>Bool\<close> whatever its operands are; a cast node (\<^verbatim>\<open>ZExt\<close>, \<^verbatim>\<open>SExt\<close>) has the
  width it was built with, answers \<^verbatim>\<open>true\<close> to \<^verbatim>\<open>needsResultType()\<close>, and its
  \<^verbatim>\<open>rebuild\<close> passes the stored width to \<^verbatim>\<open>create\<close> with the new child.
\<close>

theorem cmp_width_Bool_cast_width_stored:
  "(classof_CmpExpr e \<longrightarrow> getWidth e = Bool)
   \<and> classof_CmpExpr (alloc_Cmp c l r)
   \<and> getWidth (alloc_Cmp c l r) = Bool
   \<and> classof_CastExpr (alloc_Cast k src w)
   \<and> getWidth (alloc_Cast k src w) = w
   \<and> needsResultType (alloc_Cast k src w)
   \<and> rebuild cr (alloc_Cast k src w) ks = create_Cast cr k (ks 0) w
   \<and> (classof_CastExpr e \<longrightarrow>
        needsResultType e
        \<and> (\<exists>k. getKind e = Cast k \<and> rebuild cr e ks = create_Cast cr k (ks 0) (getWidth e)))"
proof (intro conjI impI)
  show "getWidth e = Bool" if "classof_CmpExpr e"
    using that by (auto simp: classof_CmpExpr_iff)
  show "classof_CmpExpr (alloc_Cmp c l r)"
    by (simp add: classof_CmpExpr_iff alloc_Cmp_def)
  show "getWidth (alloc_Cmp c l r) = Bool"
    by (simp add: alloc_Cmp_def)
  show "classof_CastExpr (alloc_Cast k src w)"
    by (simp add: classof_CastExpr_iff alloc_Cast_def)
  show "getWidth (alloc_Cast k src w) = w"
    by (simp add: alloc_Cast_def)
  show "needsResultType (alloc_Cast k src w)"
    by (simp add: alloc_Cast_def)
  show "rebuild cr (alloc_Cast k src w) ks = create_Cast cr k (ks 0) w"
    by (simp add: alloc_Cast_def)
  show "needsResultType e" if "classof_CastExpr e"
    using that by (auto simp: classof_CastExpr_iff)
  show "\<exists>k. getKind e = Cast k \<and> rebuild cr e ks = create_Cast cr k (ks 0) (getWidth e)"
    if "classof_CastExpr e"
    using that by (auto simp: classof_CastExpr_iff)
qed

theorem cmp_width_Bool_cast_width_stored_witness:
  "classof_CmpExpr (alloc_Cmp Ult (const32 7) byte0)
   \<and> getWidth (const32 7) = 32
   \<and> getWidth (alloc_Cmp Ult (const32 7) byte0) = 1
   \<and> classof_CastExpr (alloc_Cast SExt byte0 Int64)
   \<and> getWidth (alloc_Cast SExt byte0 Int64) = 64
   \<and> rebuild allocOnly (alloc_Cast SExt byte0 Int64) (\<lambda>i. const32 7) =
        Inr (alloc_Cast SExt (const32 7) 64)"
  using cmp_width_Bool_cast_width_stored
    [where e = "alloc_Cmp Ult (const32 7) byte0" and c = Ult and l = "const32 7" and r = byte0
       and k = SExt and src = byte0 and w = Int64 and cr = allocOnly and ks = "\<lambda>i. const32 7"]
  by (simp add: Bool_def Int64_def Int32_def allocOnly_def const32_def alloc_Constant_def
      mkAPInt_def)

subsection \<open>Claim C9: the width of a concatenation\<close>

text \<open>
  Claim C9: the width of a \<^verbatim>\<open>ConcatExpr\<close> built from \<^verbatim>\<open>l\<close> and \<^verbatim>\<open>r\<close> is
  \<^verbatim>\<open>l->getWidth() + r->getWidth()\<close>, the sum of two \<^verbatim>\<open>unsigned\<close> (a sum modulo
  \<open>2 ^ 32\<close>), computed once by the constructor and stored; the two children may have
  any widths, and are kept as children 0 and 1. The constructor is private and
  \<^verbatim>\<open>alloc\<close> is its only caller in the header, so a \<^verbatim>\<open>ConcatExpr\<close> that
  \<^verbatim>\<open>create\<close> returns has gone through it as well.
\<close>

theorem alloc_Concat_width:
  "getWidth (alloc_Concat l r) = getWidth l + getWidth r
   \<and> getKind (alloc_Concat l r) = Concat
   \<and> getKid (alloc_Concat l r) 0 = Some l
   \<and> getKid (alloc_Concat l r) 1 = Some r"
  by (simp add: alloc_Concat_def)

theorem alloc_Concat_width_witness:
  "getWidth (alloc_Concat byte0 (const32 7)) = 40
   \<and> getWidth byte0 = 8 \<and> getWidth (const32 7) = 32"
  using alloc_Concat_width [of byte0 "const32 7"]
  by (simp add: byte0_def const32_def alloc_Read_def alloc_Constant_def mkAPInt_def Int8_def
      Int32_def)

section \<open>Properties of arrays and of constants\<close>

subsection \<open>Claim C8: the invariants of an array\<close>

text \<open>
  Claim C8: an \<^verbatim>\<open>Array\<close> that has been constructed with constant initial values has
  as many of them as its size field says, a construction with another number of them
  being a failed assertion; and every array has the domain width 32 and the range
  width 8.
\<close>

theorem Array_invariants:
  "(Array_ctor n sz vals = Inr a \<longrightarrow>
      constantValues a = vals \<and> size_Array a = ucast sz
      \<and> (isConstantArray a \<longrightarrow> length (constantValues a) = unat (size_Array a)))
   \<and> (vals \<noteq> [] \<and> length vals \<noteq> unat (ucast sz :: 32 word) \<longrightarrow>
        Array_ctor n sz vals = Inl (AssertionFailed ''Invalid size for constant array!''))
   \<and> Array_ctor n sz [] = Inr \<lparr>name = n, size_Array = ucast sz, constantValues = []\<rparr>
   \<and> getDomain b = 32 \<and> getRange b = 8"
  by (auto simp: Array_ctor_def Let_def isSymbolicArray_def isConstantArray_def getDomain_def
      getRange_def Int32_def Int8_def split: if_splits)

theorem Array_invariants_witness:
  "Array_ctor ''tbl'' 2 [mkAPInt Int8 7, mkAPInt Int8 9] =
     Inr \<lparr>name = ''tbl'', size_Array = 2, constantValues = [mkAPInt Int8 7, mkAPInt Int8 9]\<rparr>
   \<and> isConstantArray
        \<lparr>name = ''tbl'', size_Array = 2, constantValues = [mkAPInt Int8 7, mkAPInt Int8 9]\<rparr>
   \<and> length [mkAPInt Int8 7, mkAPInt Int8 9] = unat (2 :: 32 word)
   \<and> Array_ctor ''tbl'' 3 [mkAPInt Int8 7, mkAPInt Int8 9] =
        Inl (AssertionFailed ''Invalid size for constant array!'')"
proof -
  let ?vals = "[mkAPInt Int8 7, mkAPInt Int8 9]"
  let ?a = "\<lparr>name = ''tbl'', size_Array = 2, constantValues = ?vals\<rparr>"
  have ok: "Array_ctor ''tbl'' 2 ?vals = Inr ?a"
    by (simp add: Array_ctor_def Let_def isSymbolicArray_def getRange_def mkAPInt_def)
  have c: "isConstantArray ?a"
    by (simp add: isConstantArray_def isSymbolicArray_def)
  have n: "?vals \<noteq> [] \<and> length ?vals \<noteq> unat (ucast (3 :: 64 word) :: 32 word)"
    by simp
  from Array_invariants [of "''tbl''" 2 ?vals ?a] ok c
  have "length (constantValues ?a) = unat (size_Array ?a)"
    by blast
  moreover from Array_invariants [of "''tbl''" 3 ?vals] n
  have "Array_ctor ''tbl'' 3 ?vals = Inl (AssertionFailed ''Invalid size for constant array!'')"
    by blast
  ultimately show ?thesis
    using ok c by simp
qed

subsection \<open>Claim C10: \<^verbatim>\<open>getZExtValue\<close>\<close>

text \<open>
  Claim C10 says that under \<^verbatim>\<open>getWidth() <= bits\<close> the call returns the value of the
  constant, zero extended to 64 bits. A constant of width 80 (\<^verbatim>\<open>Expr::Fl80\<close>) with the
  value \<open>2 ^ 64\<close> passes the assertion of \<^verbatim>\<open>getZExtValue(80)\<close>; its value is no
  \<^verbatim>\<open>uint64_t\<close>, and the call ends in the assertion of \<^verbatim>\<open>APInt\<close>.
\<close>

theorem getZExtValue_wide_constant:
  "getWidth fl80_two_to_64 \<le> 80
   \<and> getZExtValue fl80_two_to_64 80 = Inl (AssertionFailed ''Too many bits for uint64_t'')"
  by (simp add: fl80_two_to_64_def alloc_Constant_def Fl80_def APInt_getZExtValue_def)

text \<open>
  Claim C10, as the code has it: a call with \<^verbatim>\<open>getWidth() <= bits\<close> returns the
  value of the constant as a \<^verbatim>\<open>uint64_t\<close> when the value fits 64 bits, which it does
  whenever \<^verbatim>\<open>bits <= 64\<close> (the default \<^verbatim>\<open>bits = 64\<close> among them), and ends in the
  failed assertion \<^verbatim>\<open>"Too many bits for uint64_t"\<close> of \<^verbatim>\<open>APInt\<close> when the value does
  not fit 64 bits; a call with \<^verbatim>\<open>getWidth() > bits\<close> is the failed assertion
  \<^verbatim>\<open>"Value may be out of range!"\<close>.
\<close>

theorem getZExtValue_contract:
  "wfAPInt v \<Longrightarrow>
     (getWidth (ConstantExpr v) \<le> bits \<and> VAL v < 2 ^ 64 \<longrightarrow>
        (\<exists>r. getZExtValue (ConstantExpr v) bits = Inr r \<and> unat r = VAL v))
     \<and> (getWidth (ConstantExpr v) \<le> bits \<and> bits \<le> 64 \<longrightarrow> VAL v < 2 ^ 64)
     \<and> (getWidth (ConstantExpr v) \<le> bits \<and> \<not> VAL v < 2 ^ 64 \<longrightarrow>
          getZExtValue (ConstantExpr v) bits = Inl (AssertionFailed ''Too many bits for uint64_t''))
     \<and> (\<not> getWidth (ConstantExpr v) \<le> bits \<longrightarrow>
          getZExtValue (ConstantExpr v) bits = Inl (AssertionFailed ''Value may be out of range!''))"
proof (intro conjI impI)
  assume wf: "wfAPInt v"
  show "\<exists>r. getZExtValue (ConstantExpr v) bits = Inr r \<and> unat r = VAL v"
    if "getWidth (ConstantExpr v) \<le> bits \<and> VAL v < 2 ^ 64"
  proof -
    from that have "unat (word_of_nat (VAL v) :: 64 word) = VAL v"
      by (simp add: unat_of_nat)
    with that show ?thesis
      by (simp add: APInt_getZExtValue_def)
  qed
  show "VAL v < 2 ^ 64" if "getWidth (ConstantExpr v) \<le> bits \<and> bits \<le> 64"
  proof -
    from that have "unat (BitWidth v) \<le> 64"
      by (simp add: word_le_nat_alt)
    then have "(2::nat) ^ unat (BitWidth v) \<le> 2 ^ 64"
      by (rule power_increasing) simp
    with wf show ?thesis
      by (simp add: wfAPInt_def)
  qed
  show "getZExtValue (ConstantExpr v) bits = Inl (AssertionFailed ''Too many bits for uint64_t'')"
    if "getWidth (ConstantExpr v) \<le> bits \<and> \<not> VAL v < 2 ^ 64"
  proof -
    have "64 < unat (BitWidth v)"
    proof (rule ccontr)
      assume "\<not> 64 < unat (BitWidth v)"
      then have "unat (BitWidth v) \<le> 64"
        by simp
      then have "(2::nat) ^ unat (BitWidth v) \<le> 2 ^ 64"
        by (rule power_increasing) simp
      moreover from wf have "VAL v < 2 ^ unat (BitWidth v)"
        by (simp add: wfAPInt_def)
      ultimately have "VAL v < 2 ^ 64"
        by (rule less_le_trans [rotated])
      with that show False
        by simp
    qed
    then have "\<not> BitWidth v \<le> 64"
      by (simp add: word_le_nat_alt)
    with that show ?thesis
      by (simp add: APInt_getZExtValue_def)
  qed
  show "getZExtValue (ConstantExpr v) bits = Inl (AssertionFailed ''Value may be out of range!'')"
    if "\<not> getWidth (ConstantExpr v) \<le> bits"
    using that by simp
qed

theorem getZExtValue_contract_witness:
  "wfAPInt (mkAPInt Int32 300)
   \<and> getZExtValue (const32 300) 64 = Inr 300
   \<and> getZExtValue (const32 300) 8 = Inl (AssertionFailed ''Value may be out of range!'')
   \<and> wfAPInt \<lparr>BitWidth = Fl80, VAL = 2 ^ 64 + 5\<rparr>
   \<and> getZExtValue (ConstantExpr \<lparr>BitWidth = Fl80, VAL = 2 ^ 64 + 5\<rparr>) 128 =
        Inl (AssertionFailed ''Too many bits for uint64_t'')"
proof -
  have wf: "wfAPInt (mkAPInt Int32 300)"
    by (simp add: wfAPInt_def mkAPInt_def Int32_def)
  have v: "VAL (mkAPInt Int32 300) = 300" "BitWidth (mkAPInt Int32 300) = 32"
    by (simp_all add: mkAPInt_def Int32_def)
  have "\<exists>r. getZExtValue (ConstantExpr (mkAPInt Int32 300)) 64 = Inr r \<and> unat r = 300"
    using getZExtValue_contract [OF wf, of 64] v by simp
  then obtain r where r: "getZExtValue (ConstantExpr (mkAPInt Int32 300)) 64 = Inr r"
    and u: "unat r = 300"
    by blast
  have "r = word_of_nat (unat r)"
    by simp
  with u have "r = 300"
    by simp
  with r have "getZExtValue (ConstantExpr (mkAPInt Int32 300)) 64 = Inr 300"
    by simp
  moreover have "getZExtValue (ConstantExpr (mkAPInt Int32 300)) 8 =
      Inl (AssertionFailed ''Value may be out of range!'')"
    using getZExtValue_contract [OF wf, of 8] v by simp
  moreover have wf80: "wfAPInt \<lparr>BitWidth = Fl80, VAL = 2 ^ 64 + 5\<rparr>"
    by (simp add: wfAPInt_def Fl80_def)
  moreover have "getZExtValue (ConstantExpr \<lparr>BitWidth = Fl80, VAL = 2 ^ 64 + 5\<rparr>) 128 =
      Inl (AssertionFailed ''Too many bits for uint64_t'')"
  proof -
    have w: "getWidth (ConstantExpr \<lparr>BitWidth = Fl80, VAL = 2 ^ 64 + 5\<rparr>) \<le> 128"
      by (simp add: Fl80_def)
    have big: "\<not> VAL \<lparr>BitWidth = Fl80, VAL = 2 ^ 64 + 5\<rparr> < 2 ^ 64"
      by simp
    from getZExtValue_contract [OF wf80, of 128] w big show ?thesis
      by blast
  qed
  ultimately show ?thesis
    using wf by (simp add: const32_def alloc_Constant_def)
qed

section \<open>Properties of update lists\<close>

lemma wfStore_nth: "wfStore st \<Longrightarrow> a < length st \<Longrightarrow> olderNext st a"
  by (simp add: wfStore_def list_all_iff)

lemma nodeAt_append:
  "a < length st \<Longrightarrow> nodeAt (st @ [c]) a = nodeAt st a"
proof (induction a rule: less_induct)
  case (less a)
  have nth: "(st @ [c]) ! a = st ! a"
    using less.prems by (simp add: nth_append)
  show ?case
  proof (cases "next_fld (st ! a)")
    case None
    with nth less.prems show ?thesis
      by (simp add: nodeAt.simps [of _ a])
  next
    case (Some b)
    show ?thesis
    proof (cases "b < a")
      case True
      with less.prems have "b < length st" by simp
      with less.IH [OF True] have "nodeAt (st @ [c]) b = nodeAt st b" by simp
      with Some True nth less.prems show ?thesis
        by (simp add: nodeAt.simps [of _ a])
    next
      case False
      with Some nth less.prems show ?thesis
        by (simp add: nodeAt.simps [of _ a])
    qed
  qed
qed

lemma chainOf_append:
  "validPtr st p \<Longrightarrow> chainOf (st @ [c]) p = chainOf st p"
  by (cases p) (simp_all add: chainOf_def validPtr_def nodeAt_append)

lemma nodeAt_new:
  assumes "validPtr st nxt"
  shows "nodeAt (st @ [\<lparr>next_fld = nxt, index_fld = i, value_fld = v, size_fld = s\<rparr>]) (length st)
         = UpdateNode (chainOf st nxt) i v"
proof (cases nxt)
  case None
  then show ?thesis
    by (simp add: nodeAt.simps [of _ "length st"] chainOf_def)
next
  case (Some b)
  with assms have "b < length st" by (simp add: validPtr_def)
  with Some show ?thesis
    by (simp add: nodeAt.simps [of _ "length st"] chainOf_def nodeAt_append)
qed

lemma extend_store:
  "extend st L i v = (st', L') \<Longrightarrow>
     (\<exists>c. st' = st @ [c] \<and> next_fld c = head L \<and> index_fld c = i \<and> value_fld c = v
          \<and> size_fld c = 1 + getSize st L)
     \<and> head L' = Some (length st) \<and> root L' = root L"
  by (auto simp: extend_def new_UpdateNode_def getSize_def)

lemma extend_chainOf:
  assumes "extend st L i v = (st', L')" and "validPtr st (head L)"
  shows "chainOf st' (head L') = UpdateNode (chainOf st (head L)) i v"
  using assms nodeAt_new [of st "head L" i v "1 + getSize st L"]
  by (auto simp: extend_def new_UpdateNode_def getSize_def chainOf_def)

lemma extend_frame:
  assumes "extend st L i v = (st', L')"
  shows "length st' = Suc (length st)" and "a < length st \<Longrightarrow> st' ! a = st ! a"
    and "validPtr st p \<Longrightarrow> validPtr st' p"
    and "validPtr st p \<Longrightarrow> chainOf st' p = chainOf st p"
    and "validPtr st' (head L')"
  using assms
  by (auto simp: extend_def new_UpdateNode_def nth_append validPtr_def chainOf_append
      split: option.splits)

lemma extend_wfStore:
  assumes "extend st L i v = (st', L')" and "wfStore st" and "validPtr st (head L)"
  shows "wfStore st'"
proof -
  from assms(1) obtain c where st': "st' = st @ [c]" and c: "next_fld c = head L"
    using extend_store by blast
  have "olderNext st' a" if "a < length st'" for a
  proof (cases "a < length st")
    case True
    with wfStore_nth [OF assms(2) True] st' show ?thesis
      by (simp add: olderNext_def nth_append)
  next
    case False
    with that st' have "a = length st" by simp
    with st' c assms(3) show ?thesis
      by (auto simp: olderNext_def validPtr_def split: option.splits)
  qed
  then show ?thesis
    by (simp add: wfStore_def list_all_iff)
qed

subsection \<open>Claim C4: \<^verbatim>\<open>extend\<close> publishes a new head and leaves the old nodes alone\<close>

text \<open>
  Claim C4: \<^verbatim>\<open>extend(index, value)\<close> makes a new head node that links to the previous
  head and changes no node that exists already. With \<open>L1 = extend(L0, i, v)\<close> and then
  \<open>L2 = extend(L0, j, w)\<close>, both from the same \<open>L0\<close>: every node of the store before the
  two calls is the same after them, and so is the head node of \<open>L1\<close> after the second
  call; the two new heads have the head of \<open>L0\<close> as their \<^verbatim>\<open>next\<close>; reading \<open>i\<close>
  against \<open>L1\<close> yields \<open>v\<close>; for \<open>i \<noteq> j\<close> reading \<open>i\<close> against \<open>L2\<close> yields what it
  yields against \<open>L0\<close>; and a read against \<open>L2\<close> yields the same as against the list that
  \<^verbatim>\<open>extend\<close> makes from \<open>L0\<close> in the store where \<open>L1\<close> was never made.
\<close>

theorem extend_persistent:
  assumes "validPtr st0 (head L0)"
    and "extend st0 L0 i v = (st1, L1)"
    and "extend st1 L0 j w = (st2, L2)"
  shows "(\<forall>a < length st0. st1 ! a = st0 ! a \<and> st2 ! a = st0 ! a)
    \<and> head L1 = Some (length st0) \<and> next_fld (st1 ! length st0) = head L0
    \<and> st2 ! length st0 = st1 ! length st0
    \<and> head L2 = Some (length st1) \<and> next_fld (st2 ! length st1) = head L0
    \<and> root L1 = root L0 \<and> root L2 = root L0
    \<and> chainOf st2 (head L0) = chainOf st0 (head L0)
    \<and> chainOf st2 (head L1) = UpdateNode (chainOf st0 (head L0)) i v
    \<and> readAt st2 L1 i = Some v
    \<and> (i \<noteq> j \<longrightarrow> readAt st2 L2 i = readAt st0 L0 i)
    \<and> (\<forall>st2' L2'. extend st0 L0 j w = (st2', L2') \<longrightarrow> readAt st2 L2 k = readAt st2' L2' k)"
proof -
  note f1 = extend_frame [OF assms(2)] and f2 = extend_frame [OF assms(3)]
  from extend_store [OF assms(2)] obtain c1 where
    st1: "st1 = st0 @ [c1]" and c1: "next_fld c1 = head L0"
    and h1: "head L1 = Some (length st0)" and r1: "root L1 = root L0"
    by blast
  from extend_store [OF assms(3)] obtain c2 where
    st2: "st2 = st1 @ [c2]" and c2: "next_fld c2 = head L0"
    and h2: "head L2 = Some (length st1)" and r2: "root L2 = root L0"
    by blast
  have v1: "validPtr st1 (head L0)"
    using f1(3) assms(1) by simp
  have old: "\<forall>a < length st0. st1 ! a = st0 ! a \<and> st2 ! a = st0 ! a"
    using st1 st2 by (simp add: nth_append)
  have ch0: "chainOf st2 (head L0) = chainOf st0 (head L0)"
    using f1(4) [OF assms(1)] f2(4) [OF v1] by simp
  have ch1: "chainOf st1 (head L1) = UpdateNode (chainOf st0 (head L0)) i v"
    using extend_chainOf [OF assms(2) assms(1)] .
  have ch1': "chainOf st2 (head L1) = chainOf st1 (head L1)"
    using f2(4) [OF f1(5)] .
  have sz: "getSize st1 L0 = getSize st0 L0"
    using assms(1) st1 by (auto simp: getSize_def validPtr_def nth_append split: option.splits)
  have ch2: "chainOf st2 (head L2) = UpdateNode (chainOf st0 (head L0)) j w"
    using extend_chainOf [OF assms(3) v1] f1(4) [OF assms(1)] sz by simp
  have rd1: "readAt st2 L1 i = Some v"
    by (simp add: readAt_def ch1' ch1)
  have rd2: "readAt st2 L2 i = readAt st0 L0 i" if "i \<noteq> j"
    using that by (auto simp: readAt_def ch2)
  have rd3: "readAt st2 L2 k = readAt st2' L2' k" if "extend st0 L0 j w = (st2', L2')" for st2' L2'
    using extend_chainOf [OF that assms(1)] by (simp add: readAt_def ch2)
  show ?thesis
    using old h1 h2 r1 r2 c1 c2 ch0 ch1 ch1' rd1 rd2 rd3 st1 st2
    by (simp add: nth_append)
qed

theorem extend_persistent_witness:
  "validPtr (fst sampleL0) (head (snd sampleL0))
   \<and> const32 0 \<noteq> const32 1
   \<and> readAt (fst sampleL2) (snd sampleL0) (const32 0) = Some (const32 5)
   \<and> readAt (fst sampleL2) (snd sampleL1) (const32 0) = Some (const32 7)
   \<and> readAt (fst sampleL2) (snd sampleL2) (const32 0) = Some (const32 5)
   \<and> readAt (fst sampleL2) (snd sampleL2) (const32 1) = Some (const32 9)"
proof -
  have v: "validPtr (fst sampleL0) (head (snd sampleL0))"
    by (simp add: sampleL0_def extend_def new_UpdateNode_def validPtr_def noUpdates_def)
  have ne: "const32 0 \<noteq> const32 1"
    by (simp add: const32_def alloc_Constant_def mkAPInt_def Int32_def)
  have e1: "extend (fst sampleL0) (snd sampleL0) (const32 0) (const32 7) = (fst sampleL1, snd sampleL1)"
    by (simp add: sampleL1_def)
  have e2: "extend (fst sampleL1) (snd sampleL0) (const32 1) (const32 9) = (fst sampleL2, snd sampleL2)"
    by (simp add: sampleL2_def)
  have r0: "readAt (fst sampleL0) (snd sampleL0) (const32 0) = Some (const32 5)"
    using extend_chainOf [of "[]" noUpdates "const32 0" "const32 5" "fst sampleL0" "snd sampleL0"]
    by (simp add: sampleL0_def readAt_def validPtr_def noUpdates_def)
  have r00: "readAt (fst sampleL2) (snd sampleL0) (const32 0) = readAt (fst sampleL0) (snd sampleL0) (const32 0)"
    using extend_persistent [OF v e1 e2, of "const32 0"] by (simp add: readAt_def)
  from extend_persistent [OF v e1 e2, of "const32 0"] ne r0 r00
  have a: "readAt (fst sampleL2) (snd sampleL0) (const32 0) = Some (const32 5)
    \<and> readAt (fst sampleL2) (snd sampleL1) (const32 0) = Some (const32 7)
    \<and> readAt (fst sampleL2) (snd sampleL2) (const32 0) = Some (const32 5)"
    by simp
  have e2': "extend (fst sampleL1) (snd sampleL0) (const32 1) (const32 9) = (fst sampleL2, snd sampleL2)"
    by (rule e2)
  have v1: "validPtr (fst sampleL1) (head (snd sampleL0))"
    using extend_frame(3) [OF e1 v] .
  have b: "readAt (fst sampleL2) (snd sampleL2) (const32 1) = Some (const32 9)"
    using extend_chainOf [OF e2' v1] by (simp add: readAt_def)
  from v ne a b show ?thesis
    by simp
qed

section \<open>Properties of the structural comparison\<close>

lemma cmp3_eq0 [simp]: "cmp3 x y = 0 \<longleftrightarrow> x = y"
  by (simp add: cmp3_def)

lemma thenCmp_eq0 [simp]: "thenCmp p q = 0 \<longleftrightarrow> p = 0 \<and> q = 0"
  by (simp add: thenCmp_def)

lemma thenCmp_0 [simp]: "thenCmp 0 q = q"
  by (simp add: thenCmp_def)

lemma castVal_inj: "castVal k = castVal k' \<longleftrightarrow> k = k'"
  by (cases k; cases k') simp_all

lemma arithVal_inj: "arithVal k = arithVal k' \<longleftrightarrow> k = k'"
  by (cases k; cases k') simp_all

lemma cmpVal_inj: "cmpVal k = cmpVal k' \<longleftrightarrow> k = k'"
  by (cases k; cases k') simp_all

lemma castVal_other:
  "castVal c \<noteq> arithVal a" "castVal c \<noteq> cmpVal m" "arithVal a \<noteq> castVal c"
  "cmpVal m \<noteq> castVal c" "castVal c \<noteq> - 1" "castVal c \<noteq> 0" "castVal c \<noteq> 1"
  "castVal c \<noteq> 3" "castVal c \<noteq> 4" "castVal c \<noteq> 5" "castVal c \<noteq> 6" "castVal c \<noteq> 16"
  "- 1 \<noteq> castVal c" "0 \<noteq> castVal c" "1 \<noteq> castVal c"
  "3 \<noteq> castVal c" "4 \<noteq> castVal c" "5 \<noteq> castVal c" "6 \<noteq> castVal c" "16 \<noteq> castVal c"
  using castVal_range [of c] arithVal_range [of a] cmpVal_range [of m] by simp_all

lemma arithVal_other:
  "arithVal a \<noteq> cmpVal m" "cmpVal m \<noteq> arithVal a" "arithVal a \<noteq> - 1" "arithVal a \<noteq> 0"
  "arithVal a \<noteq> 1" "arithVal a \<noteq> 3" "arithVal a \<noteq> 4" "arithVal a \<noteq> 5" "arithVal a \<noteq> 6"
  "arithVal a \<noteq> 16"
  "- 1 \<noteq> arithVal a" "0 \<noteq> arithVal a" "1 \<noteq> arithVal a"
  "3 \<noteq> arithVal a" "4 \<noteq> arithVal a" "5 \<noteq> arithVal a" "6 \<noteq> arithVal a" "16 \<noteq> arithVal a"
  using arithVal_range [of a] cmpVal_range [of m] by simp_all

lemma cmpVal_other:
  "cmpVal m \<noteq> - 1" "cmpVal m \<noteq> 0" "cmpVal m \<noteq> 1" "cmpVal m \<noteq> 3" "cmpVal m \<noteq> 4"
  "cmpVal m \<noteq> 5" "cmpVal m \<noteq> 6" "cmpVal m \<noteq> 16"
  "- 1 \<noteq> cmpVal m" "0 \<noteq> cmpVal m" "1 \<noteq> cmpVal m"
  "3 \<noteq> cmpVal m" "4 \<noteq> cmpVal m" "5 \<noteq> cmpVal m" "6 \<noteq> cmpVal m" "16 \<noteq> cmpVal m"
  using cmpVal_range [of m] by simp_all

lemma kindVal_inj [simp]: "kindVal k = kindVal k' \<longleftrightarrow> k = k'"
  by (cases k; cases k')
    (simp_all add: castVal_inj arithVal_inj cmpVal_inj castVal_other arithVal_other cmpVal_other)

lemmas kindVal_facts =
  castVal_inj arithVal_inj cmpVal_inj castVal_other arithVal_other cmpVal_other

lemma APInt_eq_iff: "v = v' \<longleftrightarrow> BitWidth v = BitWidth v' \<and> VAL v = VAL v'"
  for v v' :: APInt
  by (cases v; cases v') simp

lemma compare_eq0_all:
  "(\<forall>b. compare a b = 0 \<longleftrightarrow> a = b)"
  "(\<forall>ub. compareUL u ub = 0 \<longleftrightarrow> u = ub)"
  "(\<forall>nb. compareNodes n nb = 0 \<longleftrightarrow> n = nb)"
proof (induction a and u and n)
  case (ConstantExpr v)
  show ?case
  proof
    fix b show "compare (ConstantExpr v) b = 0 \<longleftrightarrow> ConstantExpr v = b"
      by (cases b) (auto simp: compare.simps kindVal_facts APInt_eq_iff)
  qed
next
  case (NotOptimizedExpr s)
  show ?case
  proof
    fix b show "compare (NotOptimizedExpr s) b = 0 \<longleftrightarrow> NotOptimizedExpr s = b"
      using NotOptimizedExpr by (cases b) (auto simp: compare.simps kindVal_facts APInt_eq_iff)
  qed
next
  case (ReadExpr u i)
  show ?case
  proof
    fix b show "compare (ReadExpr u i) b = 0 \<longleftrightarrow> ReadExpr u i = b"
      using ReadExpr by (cases b) (auto simp: compare.simps kindVal_facts APInt_eq_iff)
  qed
next
  case (SelectExpr c t f)
  show ?case
  proof
    fix b show "compare (SelectExpr c t f) b = 0 \<longleftrightarrow> SelectExpr c t f = b"
      using SelectExpr by (cases b) (auto simp: compare.simps kindVal_facts APInt_eq_iff)
  qed
next
  case (ConcatExpr w l r)
  show ?case
  proof
    fix b show "compare (ConcatExpr w l r) b = 0 \<longleftrightarrow> ConcatExpr w l r = b"
      using ConcatExpr by (cases b) (auto simp: compare.simps kindVal_facts APInt_eq_iff)
  qed
next
  case (ExtractExpr e off w)
  show ?case
  proof
    fix b show "compare (ExtractExpr e off w) b = 0 \<longleftrightarrow> ExtractExpr e off w = b"
      using ExtractExpr by (cases b) (auto simp: compare.simps kindVal_facts APInt_eq_iff)
  qed
next
  case (NotExpr e)
  show ?case
  proof
    fix b show "compare (NotExpr e) b = 0 \<longleftrightarrow> NotExpr e = b"
      using NotExpr by (cases b) (auto simp: compare.simps kindVal_facts APInt_eq_iff)
  qed
next
  case (CastExpr k s w)
  show ?case
  proof
    fix b show "compare (CastExpr k s w) b = 0 \<longleftrightarrow> CastExpr k s w = b"
      using CastExpr by (cases b) (auto simp: compare.simps kindVal_facts APInt_eq_iff)
  qed
next
  case (ArithExpr k l r)
  show ?case
  proof
    fix b show "compare (ArithExpr k l r) b = 0 \<longleftrightarrow> ArithExpr k l r = b"
      using ArithExpr by (cases b) (auto simp: compare.simps kindVal_facts APInt_eq_iff)
  qed
next
  case (CmpExpr k l r)
  show ?case
  proof
    fix b show "compare (CmpExpr k l r) b = 0 \<longleftrightarrow> CmpExpr k l r = b"
      using CmpExpr by (cases b) (auto simp: compare.simps kindVal_facts APInt_eq_iff)
  qed
next
  case (UpdateList rt h)
  show ?case
  proof
    fix ub show "compareUL (UpdateList rt h) ub = 0 \<longleftrightarrow> UpdateList rt h = ub"
      using UpdateList by (cases ub) auto
  qed
next
  case NullNode
  show ?case
  proof
    fix nb show "compareNodes NullNode nb = 0 \<longleftrightarrow> NullNode = nb"
      by (cases nb) auto
  qed
next
  case (UpdateNode n i v)
  show ?case
  proof
    fix nb show "compareNodes (UpdateNode n i v) nb = 0 \<longleftrightarrow> UpdateNode n i v = nb"
      using UpdateNode by (cases nb) auto
  qed
qed

lemmas compare_ctor =
  compare.simps [of "ConstantExpr v"] compare.simps [of "NotOptimizedExpr s"]
  compare.simps [of "ReadExpr u i"] compare.simps [of "SelectExpr c t f"]
  compare.simps [of "ConcatExpr w l r"] compare.simps [of "ExtractExpr e off w"]
  compare.simps [of "NotExpr e"] compare.simps [of "CastExpr ck s w"]
  compare.simps [of "ArithExpr ak l r"] compare.simps [of "CmpExpr mk l r"]
  for v s u i c t f w l r e off ck ak mk

lemma compare_flip_all:
  "(\<forall>b. compare b a = - compare a b)"
  "(\<forall>ub. compareUL ub u = - compareUL u ub)"
  "(\<forall>nb. compareNodes nb n = - compareNodes n nb)"
proof (induction a and u and n)
  case (ConstantExpr v)
  show ?case
  proof
    fix b
    show "compare b (ConstantExpr v) = - compare (ConstantExpr v) b"
      by (cases b) (auto simp: compare_ctor thenCmp_def cmp3_def kindVal_facts)
  qed
next
  case (NotOptimizedExpr s)
  show ?case
  proof
    fix b
    show "compare b (NotOptimizedExpr s) = - compare (NotOptimizedExpr s) b"
      using NotOptimizedExpr by (cases b) (auto simp: compare_ctor thenCmp_def cmp3_def kindVal_facts)
  qed
next
  case (ReadExpr u i)
  show ?case
  proof
    fix b
    show "compare b (ReadExpr u i) = - compare (ReadExpr u i) b"
      using ReadExpr by (cases b) (auto simp: compare_ctor thenCmp_def cmp3_def kindVal_facts)
  qed
next
  case (SelectExpr c t f)
  show ?case
  proof
    fix b
    show "compare b (SelectExpr c t f) = - compare (SelectExpr c t f) b"
      using SelectExpr by (cases b) (auto simp: compare_ctor thenCmp_def cmp3_def kindVal_facts)
  qed
next
  case (ConcatExpr w l r)
  show ?case
  proof
    fix b
    show "compare b (ConcatExpr w l r) = - compare (ConcatExpr w l r) b"
      using ConcatExpr by (cases b) (auto simp: compare_ctor thenCmp_def cmp3_def kindVal_facts)
  qed
next
  case (ExtractExpr e off w)
  show ?case
  proof
    fix b
    show "compare b (ExtractExpr e off w) = - compare (ExtractExpr e off w) b"
      using ExtractExpr by (cases b) (auto simp: compare_ctor thenCmp_def cmp3_def kindVal_facts)
  qed
next
  case (NotExpr e)
  show ?case
  proof
    fix b
    show "compare b (NotExpr e) = - compare (NotExpr e) b"
      using NotExpr by (cases b) (auto simp: compare_ctor thenCmp_def cmp3_def kindVal_facts)
  qed
next
  case (CastExpr k s w)
  show ?case
  proof
    fix b
    show "compare b (CastExpr k s w) = - compare (CastExpr k s w) b"
      using CastExpr by (cases b) (auto simp: compare_ctor thenCmp_def cmp3_def kindVal_facts)
  qed
next
  case (ArithExpr k l r)
  show ?case
  proof
    fix b
    show "compare b (ArithExpr k l r) = - compare (ArithExpr k l r) b"
      using ArithExpr by (cases b) (auto simp: compare_ctor thenCmp_def cmp3_def kindVal_facts)
  qed
next
  case (CmpExpr k l r)
  show ?case
  proof
    fix b
    show "compare b (CmpExpr k l r) = - compare (CmpExpr k l r) b"
      using CmpExpr by (cases b) (auto simp: compare_ctor thenCmp_def cmp3_def kindVal_facts)
  qed
next
  case (UpdateList rt h)
  show ?case
  proof
    fix ub
    show "compareUL ub (UpdateList rt h) = - compareUL (UpdateList rt h) ub"
      using UpdateList by (cases ub) (auto simp: compare_ctor thenCmp_def cmp3_def kindVal_facts)
  qed
next
  case NullNode
  show ?case
  proof
    fix nb
    show "compareNodes nb NullNode = - compareNodes NullNode nb"
      by (cases nb) (auto simp: compare_ctor thenCmp_def cmp3_def kindVal_facts)
  qed
next
  case (UpdateNode n i v)
  show ?case
  proof
    fix nb
    show "compareNodes nb (UpdateNode n i v) = - compareNodes (UpdateNode n i v) nb"
      using UpdateNode by (cases nb) (auto simp: compare_ctor thenCmp_def cmp3_def kindVal_facts)
  qed
qed

lemma compare_sgn_all:
  "(\<forall>b. sgn (compare a b) = compare a b)"
  "(\<forall>ub. sgn (compareUL u ub) = compareUL u ub)"
  "(\<forall>nb. sgn (compareNodes n nb) = compareNodes n nb)"
proof (induction a and u and n)
  case (ConstantExpr v)
  show ?case
  proof
    fix b
    show "sgn (compare (ConstantExpr v) b) = compare (ConstantExpr v) b"
      by (cases b) (auto simp: compare_ctor thenCmp_def cmp3_def kindVal_facts)
  qed
next
  case (NotOptimizedExpr s)
  show ?case
  proof
    fix b
    show "sgn (compare (NotOptimizedExpr s) b) = compare (NotOptimizedExpr s) b"
      using NotOptimizedExpr by (cases b) (auto simp: compare_ctor thenCmp_def cmp3_def kindVal_facts)
  qed
next
  case (ReadExpr u i)
  show ?case
  proof
    fix b
    show "sgn (compare (ReadExpr u i) b) = compare (ReadExpr u i) b"
      using ReadExpr by (cases b) (auto simp: compare_ctor thenCmp_def cmp3_def kindVal_facts)
  qed
next
  case (SelectExpr c t f)
  show ?case
  proof
    fix b
    show "sgn (compare (SelectExpr c t f) b) = compare (SelectExpr c t f) b"
      using SelectExpr by (cases b) (auto simp: compare_ctor thenCmp_def cmp3_def kindVal_facts)
  qed
next
  case (ConcatExpr w l r)
  show ?case
  proof
    fix b
    show "sgn (compare (ConcatExpr w l r) b) = compare (ConcatExpr w l r) b"
      using ConcatExpr by (cases b) (auto simp: compare_ctor thenCmp_def cmp3_def kindVal_facts)
  qed
next
  case (ExtractExpr e off w)
  show ?case
  proof
    fix b
    show "sgn (compare (ExtractExpr e off w) b) = compare (ExtractExpr e off w) b"
      using ExtractExpr by (cases b) (auto simp: compare_ctor thenCmp_def cmp3_def kindVal_facts)
  qed
next
  case (NotExpr e)
  show ?case
  proof
    fix b
    show "sgn (compare (NotExpr e) b) = compare (NotExpr e) b"
      using NotExpr by (cases b) (auto simp: compare_ctor thenCmp_def cmp3_def kindVal_facts)
  qed
next
  case (CastExpr k s w)
  show ?case
  proof
    fix b
    show "sgn (compare (CastExpr k s w) b) = compare (CastExpr k s w) b"
      using CastExpr by (cases b) (auto simp: compare_ctor thenCmp_def cmp3_def kindVal_facts)
  qed
next
  case (ArithExpr k l r)
  show ?case
  proof
    fix b
    show "sgn (compare (ArithExpr k l r) b) = compare (ArithExpr k l r) b"
      using ArithExpr by (cases b) (auto simp: compare_ctor thenCmp_def cmp3_def kindVal_facts)
  qed
next
  case (CmpExpr k l r)
  show ?case
  proof
    fix b
    show "sgn (compare (CmpExpr k l r) b) = compare (CmpExpr k l r) b"
      using CmpExpr by (cases b) (auto simp: compare_ctor thenCmp_def cmp3_def kindVal_facts)
  qed
next
  case (UpdateList rt h)
  show ?case
  proof
    fix ub
    show "sgn (compareUL (UpdateList rt h) ub) = compareUL (UpdateList rt h) ub"
      using UpdateList by (cases ub) (auto simp: compare_ctor thenCmp_def cmp3_def kindVal_facts)
  qed
next
  case NullNode
  show ?case
  proof
    fix nb
    show "sgn (compareNodes NullNode nb) = compareNodes NullNode nb"
      by (cases nb) (auto simp: compare_ctor thenCmp_def cmp3_def kindVal_facts)
  qed
next
  case (UpdateNode n i v)
  show ?case
  proof
    fix nb
    show "sgn (compareNodes (UpdateNode n i v) nb) = compareNodes (UpdateNode n i v) nb"
      using UpdateNode by (cases nb) (auto simp: compare_ctor thenCmp_def cmp3_def kindVal_facts)
  qed
qed

lemma ordTriple_cmp3: "ordTriple (cmp3 x y) (cmp3 y z) (cmp3 x z)"
  by (auto simp: ordTriple_def cmp3_def)

lemma ordTriple_thenCmp_cond:
  assumes "ordTriple p1 q1 r1" and "p1 = 0 \<Longrightarrow> q1 = 0 \<Longrightarrow> ordTriple p2 q2 r2"
  shows "ordTriple (thenCmp p1 p2) (thenCmp q1 q2) (thenCmp r1 r2)"
  using assms by (auto simp: ordTriple_def thenCmp_def)

lemma ordTriple_thenCmp:
  assumes "ordTriple p1 q1 r1" and "ordTriple p2 q2 r2"
  shows "ordTriple (thenCmp p1 p2) (thenCmp q1 q2) (thenCmp r1 r2)"
  using assms by (rule ordTriple_thenCmp_cond)

lemma ordTriple_consts:
  "ordTriple 0 0 0" "ordTriple 0 (- 1) (- 1)" "ordTriple (- 1) 1 r" "ordTriple 1 (- 1) r"
  "ordTriple 1 0 1" "ordTriple (- 1) 0 (- 1)" "ordTriple 0 1 1" "ordTriple 1 1 1"
  "ordTriple (- 1) (- 1) (- 1)" "ordTriple (- 1) q (- 1)" "ordTriple p 1 1" "ordTriple 1 q 1"
  "ordTriple p (- 1) (- 1)"
  by (simp_all add: ordTriple_def)

lemma sgn_if_form:
  "(if compare e e' \<noteq> 0 then (if compare e e' < 0 then - 1 else 1) else 0) = compare e e'"
  using compare_sgn_all(1) [of e, rule_format, of e'] by (auto simp: sgn_if split: if_splits)

lemma compare_trans_all:
  "(\<forall>y z. ordTriple (compare a y) (compare y z) (compare a z))"
  "(\<forall>y z. ordTriple (compareUL u y) (compareUL y z) (compareUL u z))"
  "(\<forall>y z. ordTriple (compareNodes n y) (compareNodes y z) (compareNodes n z))"
proof (induction a and u and n)
  case (ConstantExpr v)
  show ?case
  proof (intro allI)
    fix y z
    show "ordTriple (compare (ConstantExpr v) y) (compare y z) (compare (ConstantExpr v) z)"
      apply (simp only: compare.simps [of "ConstantExpr v"] compare.simps [of y z])
      apply (rule ordTriple_thenCmp_cond, rule ordTriple_cmp3)
      apply (cases y; cases z; simp add: kindVal_facts sgn_if_form)
      apply (intro ordTriple_thenCmp ordTriple_cmp3 ordTriple_consts)
      done
  qed
next
  case (NotOptimizedExpr s)
  show ?case
  proof (intro allI)
    fix y z
    show "ordTriple (compare (NotOptimizedExpr s) y) (compare y z) (compare (NotOptimizedExpr s) z)"
      apply (simp only: compare.simps [of "NotOptimizedExpr s"] compare.simps [of y z])
      apply (rule ordTriple_thenCmp_cond, rule ordTriple_cmp3)
      apply (cases y; cases z; simp add: kindVal_facts sgn_if_form)
      apply (intro ordTriple_thenCmp ordTriple_cmp3 ordTriple_consts NotOptimizedExpr.IH [rule_format])
      done
  qed
next
  case (ReadExpr u i)
  show ?case
  proof (intro allI)
    fix y z
    show "ordTriple (compare (ReadExpr u i) y) (compare y z) (compare (ReadExpr u i) z)"
      apply (simp only: compare.simps [of "ReadExpr u i"] compare.simps [of y z])
      apply (rule ordTriple_thenCmp_cond, rule ordTriple_cmp3)
      apply (cases y; cases z; simp add: kindVal_facts sgn_if_form)
      apply (intro ordTriple_thenCmp ordTriple_cmp3 ordTriple_consts ReadExpr.IH [rule_format])
      done
  qed
next
  case (SelectExpr c t f)
  show ?case
  proof (intro allI)
    fix y z
    show "ordTriple (compare (SelectExpr c t f) y) (compare y z) (compare (SelectExpr c t f) z)"
      apply (simp only: compare.simps [of "SelectExpr c t f"] compare.simps [of y z])
      apply (rule ordTriple_thenCmp_cond, rule ordTriple_cmp3)
      apply (cases y; cases z; simp add: kindVal_facts sgn_if_form)
      apply (intro ordTriple_thenCmp ordTriple_cmp3 ordTriple_consts SelectExpr.IH [rule_format])
      done
  qed
next
  case (ConcatExpr w l r)
  show ?case
  proof (intro allI)
    fix y z
    show "ordTriple (compare (ConcatExpr w l r) y) (compare y z) (compare (ConcatExpr w l r) z)"
      apply (simp only: compare.simps [of "ConcatExpr w l r"] compare.simps [of y z])
      apply (rule ordTriple_thenCmp_cond, rule ordTriple_cmp3)
      apply (cases y; cases z; simp add: kindVal_facts sgn_if_form)
      apply (intro ordTriple_thenCmp ordTriple_cmp3 ordTriple_consts ConcatExpr.IH [rule_format])
      done
  qed
next
  case (ExtractExpr e off w)
  show ?case
  proof (intro allI)
    fix y z
    show "ordTriple (compare (ExtractExpr e off w) y) (compare y z) (compare (ExtractExpr e off w) z)"
      apply (simp only: compare.simps [of "ExtractExpr e off w"] compare.simps [of y z])
      apply (rule ordTriple_thenCmp_cond, rule ordTriple_cmp3)
      apply (cases y; cases z; simp add: kindVal_facts sgn_if_form)
      apply (intro ordTriple_thenCmp ordTriple_cmp3 ordTriple_consts ExtractExpr.IH [rule_format])
      done
  qed
next
  case (NotExpr e)
  show ?case
  proof (intro allI)
    fix y z
    show "ordTriple (compare (NotExpr e) y) (compare y z) (compare (NotExpr e) z)"
      apply (simp only: compare.simps [of "NotExpr e"] compare.simps [of y z])
      apply (rule ordTriple_thenCmp_cond, rule ordTriple_cmp3)
      apply (cases y; cases z; simp add: kindVal_facts sgn_if_form)
      apply (intro ordTriple_thenCmp ordTriple_cmp3 ordTriple_consts NotExpr.IH [rule_format])
      done
  qed
next
  case (CastExpr k s w)
  show ?case
  proof (intro allI)
    fix y z
    show "ordTriple (compare (CastExpr k s w) y) (compare y z) (compare (CastExpr k s w) z)"
      apply (simp only: compare.simps [of "CastExpr k s w"] compare.simps [of y z])
      apply (rule ordTriple_thenCmp_cond, rule ordTriple_cmp3)
      apply (cases y; cases z; simp add: kindVal_facts sgn_if_form)
      apply (intro ordTriple_thenCmp ordTriple_cmp3 ordTriple_consts CastExpr.IH [rule_format])
      done
  qed
next
  case (ArithExpr k l r)
  show ?case
  proof (intro allI)
    fix y z
    show "ordTriple (compare (ArithExpr k l r) y) (compare y z) (compare (ArithExpr k l r) z)"
      apply (simp only: compare.simps [of "ArithExpr k l r"] compare.simps [of y z])
      apply (rule ordTriple_thenCmp_cond, rule ordTriple_cmp3)
      apply (cases y; cases z; simp add: kindVal_facts sgn_if_form)
      apply (intro ordTriple_thenCmp ordTriple_cmp3 ordTriple_consts ArithExpr.IH [rule_format])
      done
  qed
next
  case (CmpExpr k l r)
  show ?case
  proof (intro allI)
    fix y z
    show "ordTriple (compare (CmpExpr k l r) y) (compare y z) (compare (CmpExpr k l r) z)"
      apply (simp only: compare.simps [of "CmpExpr k l r"] compare.simps [of y z])
      apply (rule ordTriple_thenCmp_cond, rule ordTriple_cmp3)
      apply (cases y; cases z; simp add: kindVal_facts sgn_if_form)
      apply (intro ordTriple_thenCmp ordTriple_cmp3 ordTriple_consts CmpExpr.IH [rule_format])
      done
  qed
next
  case (UpdateList rt h)
  show ?case
  proof (intro allI)
    fix y z
    show "ordTriple (compareUL (UpdateList rt h) y) (compareUL y z) (compareUL (UpdateList rt h) z)"
      apply (cases y; cases z; simp)
      apply (intro ordTriple_thenCmp ordTriple_cmp3 ordTriple_consts UpdateList.IH [rule_format])
      done
  qed
next
  case NullNode
  show ?case
  proof (intro allI)
    fix y z
    show "ordTriple (compareNodes NullNode y) (compareNodes y z) (compareNodes NullNode z)"
      by (cases y; cases z; simp add: ordTriple_consts)
  qed
next
  case (UpdateNode n i v)
  show ?case
  proof (intro allI)
    fix y z
    show "ordTriple (compareNodes (UpdateNode n i v) y) (compareNodes y z) (compareNodes (UpdateNode n i v) z)"
      apply (cases y; cases z; simp add: ordTriple_consts)
      apply (intro ordTriple_thenCmp ordTriple_cmp3 ordTriple_consts UpdateNode.IH [rule_format])
      done
  qed
qed

lemma compare_eq0: "compare a b = 0 \<longleftrightarrow> a = b"
  using compare_eq0_all(1) [of a] by blast

lemma compare_refl: "compare a a = 0"
  by (simp add: compare_eq0)

lemma lexCompare_refl: "lexCompare xs xs = 0"
  by (induction xs) (simp_all add: compare_refl)

lemma thenCmp_0_right: "thenCmp p 0 = p"
  by (simp add: thenCmp_def)

lemma compareKids_lex: "getKind a = getKind b \<Longrightarrow> compareKids a b = lexCompare (kids a) (kids b)"
  by (cases a; cases b) (simp_all add: thenCmp_0_right)

lemma compare_by_kind:
  "getKind a \<noteq> getKind b \<Longrightarrow>
     compare a b = (if kindVal (getKind a) < kindVal (getKind b) then - 1 else 1)"
  by (simp add: compare.simps [of a b] thenCmp_def cmp3_def)

lemma compare_by_width:
  "getKind a = getKind b \<Longrightarrow> getWidth a \<noteq> getWidth b \<Longrightarrow>
     compare a b = (if getWidth a < getWidth b then - 1 else 1)"
  by (simp add: compare.simps [of a b] thenCmp_def cmp3_def)

lemma compare_by_contents:
  "getKind a = getKind b \<Longrightarrow> getWidth a = getWidth b \<Longrightarrow> compareContents a b \<noteq> 0 \<Longrightarrow>
     compare a b = compareContents a b"
  by (simp add: compare.simps [of a b] thenCmp_def cmp3_def)

lemma compare_by_kids:
  "getKind a = getKind b \<Longrightarrow> getWidth a = getWidth b \<Longrightarrow> compareContents a b = 0 \<Longrightarrow>
     compare a b = lexCompare (kids a) (kids b)"
  by (simp add: compare.simps [of a b] thenCmp_def cmp3_def compareKids_lex)

lemma compareContents_refl: "compareContents a a = 0"
  using compare_refl [of a] by (simp add: compare.simps [of a a])

lemma structurally_identical:
  "a = b \<longleftrightarrow>
     getKind a = getKind b \<and> getWidth a = getWidth b \<and> compareContents a b = 0
     \<and> kids a = kids b"
proof
  assume "a = b"
  then show "getKind a = getKind b \<and> getWidth a = getWidth b \<and> compareContents a b = 0
     \<and> kids a = kids b"
    by (simp add: compareContents_refl)
next
  assume h: "getKind a = getKind b \<and> getWidth a = getWidth b \<and> compareContents a b = 0
     \<and> kids a = kids b"
  then have "compare a b = lexCompare (kids a) (kids b)"
    by (simp add: compare_by_kids)
  with h have "compare a b = 0"
    by (simp add: lexCompare_refl)
  then show "a = b"
    by (simp add: compare_eq0)
qed

subsection \<open>Claim C3: \<^verbatim>\<open>compare\<close> is a total order that finds structural identity\<close>

text \<open>
  Claim C3: \<^verbatim>\<open>compare\<close> is a deterministic total order on expressions. It decides by
  the kind, then by the width, then by the contents comparison of the kind (for a
  constant the width and then the value, for an extract the offset and then the width),
  then by the children from left to right. Its result is \<open>-1\<close>, \<open>0\<close> or \<open>1\<close>; swapping
  the arguments negates it; it is transitive; and it is \<open>0\<close> exactly for two
  structurally identical expressions (same kind, width and contents, and the same
  children), which then have the same hash.
\<close>

theorem compare_total_order:
  "(compare a b = 0 \<longleftrightarrow> a = b)
   \<and> (a = b \<longleftrightarrow>
        getKind a = getKind b \<and> getWidth a = getWidth b \<and> compareContents a b = 0
        \<and> kids a = kids b)
   \<and> (compare a b = 0 \<longrightarrow> hash a = hash b)
   \<and> compare a b \<in> {- 1, 0, 1}
   \<and> compare b a = - compare a b
   \<and> (compare a b < 0 \<and> compare b c < 0 \<longrightarrow> compare a c < 0)
   \<and> (getKind a \<noteq> getKind b \<longrightarrow>
        compare a b = (if kindVal (getKind a) < kindVal (getKind b) then - 1 else 1))
   \<and> (getKind a = getKind b \<and> getWidth a \<noteq> getWidth b \<longrightarrow>
        compare a b = (if getWidth a < getWidth b then - 1 else 1))
   \<and> (getKind a = getKind b \<and> getWidth a = getWidth b \<and> compareContents a b \<noteq> 0 \<longrightarrow>
        compare a b = compareContents a b)
   \<and> (getKind a = getKind b \<and> getWidth a = getWidth b \<and> compareContents a b = 0 \<longrightarrow>
        compare a b = lexCompare (kids a) (kids b))
   \<and> compareContents (ConstantExpr v) (ConstantExpr v') =
        (if BitWidth v \<noteq> BitWidth v' then (if BitWidth v < BitWidth v' then - 1 else 1)
         else if VAL v = VAL v' then 0 else if VAL v < VAL v' then - 1 else 1)
   \<and> compareContents (ExtractExpr e off w) (ExtractExpr e' off' w') =
        (if off \<noteq> off' then (if off < off' then - 1 else 1)
         else if w \<noteq> w' then (if w < w' then - 1 else 1) else 0)"
proof (intro conjI)
  show "compare a b = 0 \<longleftrightarrow> a = b"
    by (rule compare_eq0)
  show "a = b \<longleftrightarrow>
        getKind a = getKind b \<and> getWidth a = getWidth b \<and> compareContents a b = 0
        \<and> kids a = kids b"
    by (rule structurally_identical)
  show "compare a b = 0 \<longrightarrow> hash a = hash b"
    by (simp add: compare_eq0)
  have "sgn (compare a b) = compare a b"
    using compare_sgn_all(1) [of a] by blast
  then show "compare a b \<in> {- 1, 0, 1}"
    by (auto simp: sgn_if split: if_splits)
  show "compare b a = - compare a b"
    using compare_flip_all(1) [of a] by blast
  have "ordTriple (compare a b) (compare b c) (compare a c)"
    using compare_trans_all(1) [of a] by blast
  then show "compare a b < 0 \<and> compare b c < 0 \<longrightarrow> compare a c < 0"
    by (simp add: ordTriple_def)
  show "getKind a \<noteq> getKind b \<longrightarrow>
        compare a b = (if kindVal (getKind a) < kindVal (getKind b) then - 1 else 1)"
    by (simp add: compare_by_kind)
  show "getKind a = getKind b \<and> getWidth a \<noteq> getWidth b \<longrightarrow>
        compare a b = (if getWidth a < getWidth b then - 1 else 1)"
    by (simp add: compare_by_width)
  show "getKind a = getKind b \<and> getWidth a = getWidth b \<and> compareContents a b \<noteq> 0 \<longrightarrow>
        compare a b = compareContents a b"
    by (simp add: compare_by_contents)
  show "getKind a = getKind b \<and> getWidth a = getWidth b \<and> compareContents a b = 0 \<longrightarrow>
        compare a b = lexCompare (kids a) (kids b)"
    by (simp add: compare_by_kids)
  show "compareContents (ConstantExpr v) (ConstantExpr v') =
        (if BitWidth v \<noteq> BitWidth v' then (if BitWidth v < BitWidth v' then - 1 else 1)
         else if VAL v = VAL v' then 0 else if VAL v < VAL v' then - 1 else 1)"
    by (simp add: thenCmp_def cmp3_def)
  show "compareContents (ExtractExpr e off w) (ExtractExpr e' off' w') =
        (if off \<noteq> off' then (if off < off' then - 1 else 1)
         else if w \<noteq> w' then (if w < w' then - 1 else 1) else 0)"
    by (simp add: thenCmp_def cmp3_def)
qed

theorem compare_total_order_witness:
  "compare (const32 3) (const32 4) = - 1
   \<and> compare (const32 4) (const32 5) = - 1
   \<and> compare (const32 3) (const32 5) < 0
   \<and> compare (const32 5) (const32 3) = 1
   \<and> compare (const32 3) byte0 = - 1
   \<and> compare (alloc_Arith Add (const32 3) byte0) (alloc_Arith Add (const32 3) byte0) = 0
   \<and> compare (alloc_Arith Add (const32 3) byte0) (alloc_Arith Add (const32 4) byte0) = - 1"
proof -
  note ev = compare.simps const32_def byte0_def alloc_Constant_def alloc_Read_def
    alloc_Arith_def mkAPInt_def thenCmp_def cmp3_def Int32_def Int8_def
  have ab: "compare (const32 3) (const32 4) = - 1"
    by (simp add: ev)
  have bc: "compare (const32 4) (const32 5) = - 1"
    by (simp add: ev)
  have ac: "compare (const32 3) (const32 5) < 0"
    using compare_total_order [of "const32 3" "const32 4" "const32 5"] ab bc by simp
  have ca: "compare (const32 5) (const32 3) = 1"
    using compare_total_order [of "const32 3" "const32 5" "const32 3"] ac by auto
  have k: "getKind (const32 3) \<noteq> getKind byte0"
    by (simp add: const32_def byte0_def alloc_Constant_def alloc_Read_def)
  have kb: "compare (const32 3) byte0 = - 1"
    using compare_total_order [of "const32 3" byte0 byte0] k
    by (simp add: const32_def byte0_def alloc_Constant_def alloc_Read_def)
  have same: "compare (alloc_Arith Add (const32 3) byte0) (alloc_Arith Add (const32 3) byte0) = 0"
    using compare_total_order
      [of "alloc_Arith Add (const32 3) byte0" "alloc_Arith Add (const32 3) byte0" byte0]
    by simp
  have less: "compare (alloc_Arith Add (const32 3) byte0) (alloc_Arith Add (const32 4) byte0) = - 1"
    by (simp add: ev)
  from ab bc ac ca kb same less show ?thesis
    by simp
qed

end
